theory Spec2Isabelle
  imports Main "HOL-Library.Sublist"
begin

section \<open>JavaScript values and strings\<close>

text \<open>
  Strings are byte strings (\<open>char list\<close>). An attribute value of a section is either
  the boolean \<open>true\<close> (attribute present without a value) or a string
  (\<open>Record<string, string | true>\<close>).
\<close>

datatype attr_value = AttrTrue | AttrString string

type_synonym attrs_map = "(string \<times> attr_value) list"

text \<open>JavaScript truthiness of the values the module tests.\<close>

fun truthy_attr :: "attr_value \<Rightarrow> bool" where
  "truthy_attr AttrTrue = True"
| "truthy_attr (AttrString s) = (s \<noteq> [])"

definition truthy_attr_opt :: "attr_value option \<Rightarrow> bool" where
  "truthy_attr_opt v = (case v of None \<Rightarrow> False | Some a \<Rightarrow> truthy_attr a)"

definition truthy_string_opt :: "string option \<Rightarrow> bool" where
  "truthy_string_opt v = (case v of None \<Rightarrow> False | Some s \<Rightarrow> s \<noteq> [])"

text \<open>\<open>String(value)\<close> and template interpolation \<open>${value}\<close>.\<close>

fun String_attr :: "attr_value \<Rightarrow> string" where
  "String_attr AttrTrue = ''true''"
| "String_attr (AttrString s) = s"

definition interpolate_attr_opt :: "attr_value option \<Rightarrow> string" where
  "interpolate_attr_opt v = (case v of None \<Rightarrow> ''undefined'' | Some a \<Rightarrow> String_attr a)"

definition interpolate_string_opt :: "string option \<Rightarrow> string" where
  "interpolate_string_opt v = (case v of None \<Rightarrow> ''undefined'' | Some s \<Rightarrow> s)"

text \<open>\<open>a || b\<close> on an optional string and a string.\<close>

definition or_else :: "string option \<Rightarrow> string \<Rightarrow> string" where
  "or_else v d = (case v of None \<Rightarrow> d | Some s \<Rightarrow> if s = [] then d else s)"

text \<open>Decimal rendering of an array index, as \<open>${i}\<close> prints it.\<close>

definition digit_char :: "nat \<Rightarrow> char" where
  "digit_char d = char_of (48 + d)"

fun string_of_nat :: "nat \<Rightarrow> string" where
  "string_of_nat n =
     (if n < 10 then [digit_char n]
      else string_of_nat (n div 10) @ [digit_char (n mod 10)])"

declare string_of_nat.simps [simp del]

text \<open>\<open>String.prototype.split\<close> with a one-character separator.\<close>

fun split_on :: "char \<Rightarrow> string \<Rightarrow> string list" where
  "split_on c [] = [[]]"
| "split_on c (x # xs) =
     (if x = c then [] # split_on c xs
      else (case split_on c xs of [] \<Rightarrow> [[x]] | y # ys \<Rightarrow> (x # y) # ys))"

section \<open>\<open>querystring.escape\<close>\<close>

text \<open>
  The module calls Node's \<open>querystring.escape\<close>. It keeps the characters
  \<open>A-Z a-z 0-9 - _ . ! ~ * ' ( )\<close> and writes every other byte as \<open>%XX\<close> with
  upper-case hexadecimal digits.
\<close>

definition noEscape :: "char \<Rightarrow> bool" where
  "noEscape c =
     (c \<in> set ''ABCDEFGHIJKLMNOPQRSTUVWXYZabcdefghijklmnopqrstuvwxyz0123456789-_.!~*()''
      \<or> c = CHR 0x27)"

definition hex_digit :: "nat \<Rightarrow> char" where
  "hex_digit d = ''0123456789ABCDEF'' ! d"

definition escape_char :: "char \<Rightarrow> string" where
  "escape_char c =
     (if noEscape c then [c]
      else [CHR ''%'', hex_digit (of_char c div 16), hex_digit (of_char c mod 16)])"

definition qs_escape :: "string \<Rightarrow> string" where
  "qs_escape s = concat (map escape_char s)"

section \<open>The query encoder \<open>attrsToQuery\<close>\<close>

definition ignoreList :: "string list" where
  "ignoreList = [''id'', ''index'', ''src'', ''type'', ''lang'']"

text \<open>
  The attribute object is an association list in iteration order. One round of the
  \<open>for (const name in attrs)\<close> loop appends to \<open>query\<close>.
\<close>

fun attrs_loop :: "attrs_map \<Rightarrow> string \<Rightarrow> string" where
  "attrs_loop [] query = query"
| "attrs_loop ((name, v) # rest) query =
     attrs_loop rest
       (if name \<notin> set ignoreList
        then query @ ''&'' @ qs_escape name
               @ (if truthy_attr v then ''='' @ qs_escape (String_attr v) else [])
        else query)"

definition attrsToQuery :: "attrs_map \<Rightarrow> string option \<Rightarrow> bool \<Rightarrow> string" where
  "attrsToQuery attrs langFallback forceLangFallback =
     (let query = attrs_loop attrs [] in
      if truthy_string_opt langFallback \<or> truthy_attr_opt (map_of attrs ''lang'')
      then query @
        (if ''lang'' \<in> fst ` set attrs
         then (if forceLangFallback
               then ''&lang.'' @ interpolate_string_opt langFallback
               else ''&lang.'' @ interpolate_attr_opt (map_of attrs ''lang''))
         else ''&lang.'' @ interpolate_string_opt langFallback)
      else query)"

section \<open>The parsed document\<close>

text \<open>
  \<open>SFCBlock\<close> and \<open>SFCDescriptor\<close> of the compiler, restricted to the fields the module
  reads. The field \<open>type\<close> is called \<open>block_type\<close>. A style section also carries
  \<open>scoped\<close> and \<open>module\<close> (\<open>string | boolean | undefined\<close>).
\<close>

record sfc_block =
  block_type :: string
  content :: string
  src :: "string option"
  attrs :: attrs_map

datatype module_flag = ModuleUndefined | ModuleBool bool | ModuleName string

fun truthy_module :: "module_flag \<Rightarrow> bool" where
  "truthy_module ModuleUndefined = False"
| "truthy_module (ModuleBool b) = b"
| "truthy_module (ModuleName s) = (s \<noteq> [])"

record style_block = sfc_block +
  scoped :: bool
  module :: module_flag

record descriptor =
  script :: "sfc_block option"
  scriptSetup :: "sfc_block option"
  scriptCompiled :: "sfc_block option"
  template :: "sfc_block option"
  styles :: "style_block list"
  customBlocks :: "sfc_block list"

record options =
  preprocessStyles :: "bool option"
  exposeFilename :: "bool option"

definition truthy_bool_opt :: "bool option \<Rightarrow> bool" where
  "truthy_bool_opt v = (case v of None \<Rightarrow> False | Some b \<Rightarrow> b)"

section \<open>Imported functions\<close>

text \<open>
  The functions the module imports and whose code is not part of it are parameters of
  the model: the compiler's \<open>parse\<close> (arguments: text, file name, source root) and
  \<open>compileScript\<close> (absent in older compilers, hence optional), \<open>hash-sum\<close>,
  \<open>path.relative\<close>, \<open>path.basename\<close>, \<open>JSON.stringify\<close> on strings,
  \<open>getTemplateCompilerOptions\<close> and \<open>createRollupError\<close>.
\<close>

record 't compile_options =
  co_id :: string
  co_isProd :: bool
  co_inlineTemplate :: bool
  co_templateOptions :: 't

record ('e, 'r, 't) externals =
  parse :: "string \<Rightarrow> string \<Rightarrow> string \<Rightarrow> descriptor \<times> 'e list"
  compileScript :: "(descriptor \<Rightarrow> 't compile_options \<Rightarrow> sfc_block) option"
  getTemplateCompilerOptions :: "options \<Rightarrow> descriptor \<Rightarrow> string \<Rightarrow> 't"
  createRollupError :: "string \<Rightarrow> 'e \<Rightarrow> 'r"
  hash :: "string \<Rightarrow> string"
  path_relative :: "string \<Rightarrow> string \<Rightarrow> string"
  path_basename :: "string \<Rightarrow> string"
  JSON_stringify :: "string \<Rightarrow> string"

section \<open>The state the transform works on\<close>

text \<open>
  The descriptor cache maps a resource path to a document. The plugin context is
  rollup's \<open>TransformPluginContext\<close>: its \<open>error\<close> raises the error it is given and
  never returns (its return type is \<open>never\<close>). A raise is the outcome \<open>Raised\<close>, a
  normal return the outcome \<open>Returned\<close>; \<open>reported\<close> lists the errors handed to
  \<open>pluginContext.error\<close>, oldest first.
\<close>

datatype ('r, 'a) outcome = Raised 'r | Returned 'a

record 'r plugin_state =
  cache :: "string \<rightharpoonup> descriptor"
  reported :: "'r list"

text \<open>
  Modelled from the spec: \<open>setDescriptor\<close> of \<open>utils/descriptorCache\<close> is not among the
  sources. Section 4.1: \<open>set(resourceId, document)\<close> unconditionally overwrites, and
  \<open>get(resourceId)\<close> returns the last stored document or "absent".
\<close>

definition setDescriptor ::
  "string \<Rightarrow> descriptor \<Rightarrow> (string \<rightharpoonup> descriptor) \<Rightarrow> (string \<rightharpoonup> descriptor)" where
  "setDescriptor resourceId d c = c(resourceId \<mapsto> d)"

definition pluginContext_error ::
  "'r \<Rightarrow> 'r plugin_state \<Rightarrow> ('r, unit) outcome \<times> 'r plugin_state" where
  "pluginContext_error e st = (Raised e, st\<lparr>reported := reported st @ [e]\<rparr>)"

section \<open>Section addresses and generated code\<close>

subsection \<open>Template\<close>

definition renderFnName :: "bool \<Rightarrow> string" where
  "renderFnName isServer = (if isServer then ''ssrRender'' else ''render'')"

text \<open>The value of \<open>src + query\<close> in \<open>genTemplateCode\<close>, when there is a template.\<close>

definition templateAddress :: "sfc_block \<Rightarrow> string \<Rightarrow> string \<Rightarrow> string" where
  "templateAddress t resourcePath ident =
     (let src' = or_else (src t) resourcePath;
          idQuery = ''&id='' @ ident;
          srcQuery = (if truthy_string_opt (src t) then ''&src'' else []);
          attrsQuery = attrsToQuery (attrs t) (Some ''js'') True;
          query = ''?vue&type=template'' @ idQuery @ srcQuery @ attrsQuery
      in src' @ query)"

definition genTemplateCode ::
  "('e, 'r, 't) externals \<Rightarrow> descriptor \<Rightarrow> string \<Rightarrow> string \<Rightarrow> bool \<Rightarrow> string" where
  "genTemplateCode X d resourcePath ident isServer =
     (case template d of
        None \<Rightarrow> ''const '' @ renderFnName isServer @ '' = () => {}''
      | Some t \<Rightarrow>
          ''import { '' @ renderFnName isServer @ '' } from ''
            @ JSON_stringify X (templateAddress t resourcePath ident))"

subsection \<open>Script\<close>

text \<open>The value of \<open>src + query\<close> in \<open>genScriptCode\<close> for the chosen script block.\<close>

definition scriptAddress :: "sfc_block \<Rightarrow> string \<Rightarrow> string" where
  "scriptAddress s resourcePath =
     (let src' = or_else (src s) resourcePath;
          attrsQuery = attrsToQuery (attrs s) (Some ''js'') False;
          srcQuery = (if truthy_string_opt (src s) then ''&src'' else []);
          query = ''?vue&type=script'' @ srcQuery @ attrsQuery
      in src' @ query)"

text \<open>
  \<open>genScriptCode\<close> assigns \<open>descriptor.scriptCompiled\<close>; the descriptor is the object the
  cache holds, so the model returns the updated descriptor beside the text.
\<close>

definition compiledDescriptor ::
  "('e, 'r, 't) externals \<Rightarrow> descriptor \<Rightarrow> string \<Rightarrow> bool \<Rightarrow> bool \<Rightarrow> 't \<Rightarrow> descriptor" where
  "compiledDescriptor X d ident isProd isServer templateOptions =
     (if script d \<noteq> None \<or> scriptSetup d \<noteq> None
      then (case compileScript X of
              None \<Rightarrow> d
            | Some f \<Rightarrow>
                d\<lparr>scriptCompiled :=
                    Some (f d \<lparr>co_id = ident, co_isProd = isProd,
                               co_inlineTemplate = \<not> isServer,
                               co_templateOptions = templateOptions\<rparr>)\<rparr>)
      else d)"

definition chosenScript :: "descriptor \<Rightarrow> sfc_block option" where
  "chosenScript d =
     (if script d \<noteq> None \<or> scriptSetup d \<noteq> None
      then (case scriptCompiled d of Some s \<Rightarrow> Some s | None \<Rightarrow> script d)
      else None)"

definition genScriptCode ::
  "('e, 'r, 't) externals \<Rightarrow> descriptor \<Rightarrow> string \<Rightarrow> string \<Rightarrow> bool \<Rightarrow> bool \<Rightarrow> 't
     \<Rightarrow> string \<times> descriptor" where
  "genScriptCode X d resourcePath ident isProd isServer templateOptions =
     (let d' = compiledDescriptor X d ident isProd isServer templateOptions in
      (case chosenScript d' of
         None \<Rightarrow> (''const script = {}'', d')
       | Some s \<Rightarrow>
           (let scriptRequest = JSON_stringify X (scriptAddress s resourcePath) in
            (''import script from '' @ scriptRequest @ [CHR 0x0A]
               @ ''export * from '' @ scriptRequest, d'))))"

subsection \<open>Styles\<close>

text \<open>
  \<open>attrsQuery.replace(/&module(=true|=[^&]+)?/, '')\<close>: the leftmost \<open>&module\<close> is
  removed, together with \<open>=true\<close> if that follows, otherwise together with \<open>=\<close> and
  the longest non-empty run of characters other than \<open>&\<close> if that follows.
\<close>

definition dropModuleValue :: "string \<Rightarrow> string" where
  "dropModuleValue rest =
     (if prefix ''=true'' rest then drop 5 rest
      else (case rest of
              [] \<Rightarrow> rest
            | c # r \<Rightarrow>
                if c = CHR ''='' \<and> r \<noteq> [] \<and> hd r \<noteq> CHR ''&''
                then dropWhile (\<lambda>x. x \<noteq> CHR ''&'') r
                else rest))"

fun removeModuleParam :: "string \<Rightarrow> string" where
  "removeModuleParam [] = []"
| "removeModuleParam (c # cs) =
     (if prefix ''&module'' (c # cs) then dropModuleValue (drop 7 (c # cs))
      else c # removeModuleParam cs)"

definition styleQuery :: "style_block \<Rightarrow> nat \<Rightarrow> string \<Rightarrow> string" where
  "styleQuery style i ident =
     (let idQuery = ''&id='' @ ident;
          srcQuery = (if truthy_string_opt (src style) then ''&src'' else [])
      in ''?vue&type=style&index='' @ string_of_nat i @ srcQuery @ idQuery)"

definition styleRequest :: "style_block \<Rightarrow> nat \<Rightarrow> string \<Rightarrow> string \<Rightarrow> bool \<Rightarrow> string" where
  "styleRequest style i resourcePath ident preprocess =
     or_else (src style) resourcePath @ styleQuery style i ident
       @ attrsToQuery (attrs style) (Some ''css'') preprocess"

definition styleRequestWithoutModule ::
  "style_block \<Rightarrow> nat \<Rightarrow> string \<Rightarrow> string \<Rightarrow> bool \<Rightarrow> string" where
  "styleRequestWithoutModule style i resourcePath ident preprocess =
     or_else (src style) resourcePath @ styleQuery style i ident
       @ removeModuleParam (attrsToQuery (attrs style) (Some ''css'') preprocess)"

definition moduleVarName :: "module_flag \<Rightarrow> string" where
  "moduleVarName m = (case m of ModuleName s \<Rightarrow> s | _ \<Rightarrow> ''$style'')"

definition genCSSModulesCode ::
  "('e, 'r, 't) externals \<Rightarrow> string \<Rightarrow> nat \<Rightarrow> string \<Rightarrow> string \<Rightarrow> module_flag \<Rightarrow> string" where
  "genCSSModulesCode X ident index request requestWithoutModule moduleName =
     (let styleVar = ''style'' @ string_of_nat index;
          code = [CHR 0x0A] @ ''import '' @ JSON_stringify X requestWithoutModule
                 @ [CHR 0x0A] @ ''import '' @ styleVar @ '' from ''
                 @ JSON_stringify X (request @ ''.js'');
          name = moduleVarName moduleName
      in code @ [CHR 0x0A] @ ''cssModules['' @ [CHR 0x22] @ name @ [CHR 0x22] @ ''] = ''
           @ styleVar)"

text \<open>
  One round of \<open>descriptor.styles.forEach((style, i) => ...)\<close> on the pair
  \<open>(stylesCode, hasCSSModules)\<close>.
\<close>

definition style_step ::
  "('e, 'r, 't) externals \<Rightarrow> string \<Rightarrow> string \<Rightarrow> bool \<Rightarrow> style_block \<Rightarrow> nat
     \<Rightarrow> string \<times> bool \<Rightarrow> string \<times> bool" where
  "style_step X resourcePath ident preprocess style i acc =
     (let (stylesCode, hasCSSModules) = acc in
      if truthy_module (module style)
      then (let (stylesCode1, hasCSSModules1) =
                  (if \<not> hasCSSModules
                   then (stylesCode @ [CHR 0x0A]
                           @ ''const cssModules = script.__cssModules = {}'', True)
                   else (stylesCode, hasCSSModules))
            in (stylesCode1
                  @ genCSSModulesCode X ident i
                      (styleRequest style i resourcePath ident preprocess)
                      (styleRequestWithoutModule style i resourcePath ident preprocess)
                      (module style),
                hasCSSModules1))
      else (stylesCode @ [CHR 0x0A] @ ''import ''
              @ JSON_stringify X (styleRequest style i resourcePath ident preprocess),
            hasCSSModules))"

fun styles_loop ::
  "('e, 'r, 't) externals \<Rightarrow> string \<Rightarrow> string \<Rightarrow> bool \<Rightarrow> style_block list \<Rightarrow> nat
     \<Rightarrow> string \<times> bool \<Rightarrow> string \<times> bool" where
  "styles_loop X resourcePath ident preprocess [] i acc = acc"
| "styles_loop X resourcePath ident preprocess (style # rest) i acc =
     styles_loop X resourcePath ident preprocess rest (Suc i)
       (style_step X resourcePath ident preprocess style i acc)"

definition genStyleCode ::
  "('e, 'r, 't) externals \<Rightarrow> descriptor \<Rightarrow> string \<Rightarrow> string \<Rightarrow> bool option \<Rightarrow> string" where
  "genStyleCode X d resourcePath ident preprocess =
     fst (styles_loop X resourcePath ident (truthy_bool_opt preprocess) (styles d) 0
            ([], False))"

subsection \<open>Custom blocks\<close>

definition customBlockAddress :: "sfc_block \<Rightarrow> nat \<Rightarrow> string \<Rightarrow> string" where
  "customBlockAddress block index resourcePath =
     (let src' = or_else (src block) resourcePath;
          attrsQuery = attrsToQuery (attrs block) (Some (block_type block)) False;
          srcQuery = (if truthy_string_opt (src block) then ''&src'' else []);
          query = ''?vue&type='' @ block_type block @ ''&index='' @ string_of_nat index
                  @ srcQuery @ attrsQuery
      in src' @ query)"

definition customBlockLines ::
  "('e, 'r, 't) externals \<Rightarrow> sfc_block \<Rightarrow> nat \<Rightarrow> string \<Rightarrow> string" where
  "customBlockLines X block index resourcePath =
     ''import block'' @ string_of_nat index @ '' from ''
       @ JSON_stringify X (customBlockAddress block index resourcePath) @ [CHR 0x0A]
     @ ''if (typeof block'' @ string_of_nat index @ '' === '' @ [CHR 0x27] @ ''function''
       @ [CHR 0x27] @ '') block'' @ string_of_nat index @ ''(script)'' @ [CHR 0x0A]"

fun blocks_loop ::
  "('e, 'r, 't) externals \<Rightarrow> string \<Rightarrow> (string \<Rightarrow> bool) \<Rightarrow> sfc_block list \<Rightarrow> nat
     \<Rightarrow> string \<Rightarrow> string" where
  "blocks_loop X resourcePath filt [] index code = code"
| "blocks_loop X resourcePath filt (block # rest) index code =
     blocks_loop X resourcePath filt rest (Suc index)
       (if filt (block_type block)
        then code @ customBlockLines X block index resourcePath
        else code)"

definition getCustomBlock ::
  "('e, 'r, 't) externals \<Rightarrow> descriptor \<Rightarrow> string \<Rightarrow> (string \<Rightarrow> bool) \<Rightarrow> string" where
  "getCustomBlock X d resourcePath filt =
     blocks_loop X resourcePath filt (customBlocks d) 0 []"

section \<open>\<open>transformSFCEntry\<close>\<close>

text \<open>
  \<open>path.relative(sourceRoot, resourcePath).replace(/^(\.\.[\/\\])+/, '').replace(/\\/g, '/')\<close>:
  leading \<open>../\<close> and \<open>..\\<close> are stripped, then every backslash becomes a slash.
\<close>

fun stripParentEscapes :: "string \<Rightarrow> string" where
  "stripParentEscapes (a # b # c # rest) =
     (if a = CHR ''.'' \<and> b = CHR ''.'' \<and> (c = CHR ''/'' \<or> c = CHR 0x5C)
      then stripParentEscapes rest
      else a # b # c # rest)"
| "stripParentEscapes s = s"

definition slashes :: "string \<Rightarrow> string" where
  "slashes s = map (\<lambda>c. if c = CHR 0x5C then CHR ''/'' else c) s"

definition shortFilePath :: "('e, 'r, 't) externals \<Rightarrow> string \<Rightarrow> string \<Rightarrow> string" where
  "shortFilePath X sourceRoot resourcePath =
     slashes (stripParentEscapes (path_relative X sourceRoot resourcePath))"

text \<open>The argument of \<open>hash\<close>, and the scope id.\<close>

definition scopeIdInput ::
  "('e, 'r, 't) externals \<Rightarrow> string \<Rightarrow> string \<Rightarrow> string \<Rightarrow> bool \<Rightarrow> string" where
  "scopeIdInput X code resourcePath sourceRoot isProduction =
     (if isProduction
      then shortFilePath X sourceRoot resourcePath @ [CHR 0x0A] @ code
      else shortFilePath X sourceRoot resourcePath)"

definition scopeId ::
  "('e, 'r, 't) externals \<Rightarrow> string \<Rightarrow> string \<Rightarrow> string \<Rightarrow> bool \<Rightarrow> string" where
  "scopeId X code resourcePath sourceRoot isProduction =
     hash X (scopeIdInput X code resourcePath sourceRoot isProduction)"

definition hasScoped :: "descriptor \<Rightarrow> bool" where
  "hasScoped d = list_ex scoped (styles d)"

definition hasTemplateImport :: "descriptor \<Rightarrow> bool \<Rightarrow> bool" where
  "hasTemplateImport d isServer =
     (template d \<noteq> None \<and> (isServer \<or> scriptSetup d = None))"

definition templateImport ::
  "('e, 'r, 't) externals \<Rightarrow> descriptor \<Rightarrow> string \<Rightarrow> string \<Rightarrow> bool \<Rightarrow> string" where
  "templateImport X d resourcePath ident isServer =
     (if hasTemplateImport d isServer
      then genTemplateCode X d resourcePath ident isServer
      else [])"

definition renderReplace :: "descriptor \<Rightarrow> bool \<Rightarrow> string" where
  "renderReplace d isServer =
     (if hasTemplateImport d isServer
      then (if isServer then ''script.ssrRender = ssrRender'' else ''script.render = render'')
      else [])"

fun join :: "string \<Rightarrow> string list \<Rightarrow> string" where
  "join sep [] = []"
| "join sep [x] = x"
| "join sep (x # y # ys) = x @ sep @ join sep (y # ys)"

text \<open>The array \<open>output\<close> just before it is joined, and the updated descriptor.\<close>

definition outputLines ::
  "('e, 'r, 't) externals \<Rightarrow> descriptor \<Rightarrow> string \<Rightarrow> string \<Rightarrow> options \<Rightarrow> string \<Rightarrow> bool
     \<Rightarrow> bool \<Rightarrow> (string \<Rightarrow> bool) \<Rightarrow> string list \<times> descriptor" where
  "outputLines X d code resourcePath opts sourceRoot isProduction isServer filterCustomBlock =
     (let short = shortFilePath X sourceRoot resourcePath;
          ident = scopeId X code resourcePath sourceRoot isProduction;
          (scriptImport, d') =
             genScriptCode X d resourcePath ident isProduction isServer
               (getTemplateCompilerOptions X opts d ident);
          stylesCode = genStyleCode X d' resourcePath ident (preprocessStyles opts);
          customBlocksCode = getCustomBlock X d' resourcePath filterCustomBlock;
          output = [scriptImport, templateImport X d resourcePath ident isServer, stylesCode,
                    customBlocksCode, renderReplace d isServer];
          output1 = (if hasScoped d
                     then output @ [''script.__scopeId = '' @ JSON_stringify X (''data-v-'' @ ident)]
                     else output);
          output2 = (if \<not> isProduction
                     then output1 @ [''script.__file = '' @ JSON_stringify X short]
                     else if truthy_bool_opt (exposeFilename opts)
                     then output1 @ [''script.__file = ''
                                       @ JSON_stringify X (path_basename X short)]
                     else output1)
      in (output2 @ [''export default script''], d'))"

record transform_result =
  out_code :: string
  out_map_mappings :: string

text \<open>
  \<open>errors.forEach((error) => pluginContext.error(createRollupError(resourcePath, error)))\<close>:
  a raise inside the callback ends the loop and leaves the transform.
\<close>

fun reportErrors ::
  "('e, 'r, 't) externals \<Rightarrow> string \<Rightarrow> 'e list \<Rightarrow> 'r plugin_state
     \<Rightarrow> ('r, unit) outcome \<times> 'r plugin_state" where
  "reportErrors X resourcePath [] st = (Returned (), st)"
| "reportErrors X resourcePath (error # rest) st =
     (case pluginContext_error (createRollupError X resourcePath error) st of
        (Raised r, st') \<Rightarrow> (Raised r, st')
      | (Returned u, st') \<Rightarrow> reportErrors X resourcePath rest st')"

text \<open>
  The transform on the plugin state. It returns \<open>null\<close> (\<open>None\<close>) or an object with
  the fields \<open>out_code\<close> (\<open>code\<close>) and \<open>out_map_mappings\<close> (\<open>map.mappings\<close>), or it
  is left by a raise. The cache holds the descriptor object itself, so the assignment
  of \<open>scriptCompiled\<close> made by \<open>genScriptCode\<close> is written through to the cache entry.
\<close>

definition transformSFCEntry ::
  "('e, 'r, 't) externals \<Rightarrow> string \<Rightarrow> string \<Rightarrow> options \<Rightarrow> string \<Rightarrow> bool \<Rightarrow> bool
     \<Rightarrow> (string \<Rightarrow> bool) \<Rightarrow> 'r plugin_state
     \<Rightarrow> ('r, transform_result option) outcome \<times> 'r plugin_state" where
  "transformSFCEntry X code resourcePath opts sourceRoot isProduction isServer
       filterCustomBlock st =
     (let (d, errors) = parse X code resourcePath sourceRoot;
          st1 = st\<lparr>cache := setDescriptor resourcePath d (cache st)\<rparr>
      in if errors \<noteq> []
         then (case reportErrors X resourcePath errors st1 of
                 (Raised r, st2) \<Rightarrow> (Raised r, st2)
               | (Returned u, st2) \<Rightarrow> (Returned None, st2))
         else (let (output, d') =
                     outputLines X d code resourcePath opts sourceRoot isProduction isServer
                       filterCustomBlock
               in (Returned (Some \<lparr>out_code = join [CHR 0x0A] output, out_map_mappings = []\<rparr>),
                   st1\<lparr>cache := setDescriptor resourcePath d' (cache st1)\<rparr>)))"

section \<open>Example documents\<close>

text \<open>
  Stand-ins for the imported functions, used to run the transform on concrete
  documents: \<open>parse\<close> returns a given document and diagnostics, \<open>compileScript\<close>
  returns the script-setup block if there is one and the script block otherwise,
  \<open>hash\<close> returns a fixed token, and \<open>JSON.stringify\<close> quotes a string that needs no
  escapes. \<open>path.relative\<close> is \<open>path.posix.relative\<close> on absolute paths without \<open>.\<close>
  and \<open>..\<close> segments (for these the working directory is not read): the common
  leading segments are dropped, every segment left of the first path becomes \<open>..\<close>,
  and the segments left of the second path follow. \<open>path.basename\<close> is the part after
  the last slash.
\<close>

definition pathSegments :: "string \<Rightarrow> string list" where
  "pathSegments p = filter (\<lambda>seg. seg \<noteq> []) (split_on (CHR ''/'') p)"

fun dropCommon :: "string list \<Rightarrow> string list \<Rightarrow> string list \<times> string list" where
  "dropCommon (a # as) (b # bs) = (if a = b then dropCommon as bs else (a # as, b # bs))"
| "dropCommon as bs = (as, bs)"

definition posixRelative :: "string \<Rightarrow> string \<Rightarrow> string" where
  "posixRelative fromPath toPath =
     (let (f, t) = dropCommon (pathSegments fromPath) (pathSegments toPath)
      in join ''/'' (map (\<lambda>seg. ''..'') f @ t))"

definition exampleCompile :: "descriptor \<Rightarrow> unit compile_options \<Rightarrow> sfc_block" where
  "exampleCompile d opts =
     (case scriptSetup d of
        Some s \<Rightarrow> s
      | None \<Rightarrow>
          (case script d of
             Some s \<Rightarrow> s
           | None \<Rightarrow> \<lparr>block_type = ''script'', content = [], src = None, attrs = []\<rparr>))"

definition exampleExternals ::
  "descriptor \<Rightarrow> string list \<Rightarrow> (string, string \<times> string, unit) externals" where
  "exampleExternals d errs =
     \<lparr>parse = (\<lambda>text filename root. (d, errs)),
      compileScript = Some exampleCompile,
      getTemplateCompilerOptions = (\<lambda>opts d ident. ()),
      createRollupError = (\<lambda>ident e. (ident, e)),
      hash = (\<lambda>s. ''7ba5bd90''),
      path_relative = posixRelative,
      path_basename = (\<lambda>p. rev (takeWhile (\<lambda>c. c \<noteq> CHR ''/'') (rev p))),
      JSON_stringify = (\<lambda>s. [CHR 0x22] @ s @ [CHR 0x22])\<rparr>"

definition exampleOptions :: options where
  "exampleOptions = \<lparr>preprocessStyles = None, exposeFilename = None\<rparr>"

text \<open>
  The document of the spec's section 8: a script, a template, a plain style and a
  style declared as the CSS module \<open>classes\<close>; and two custom blocks.
\<close>

definition exampleDescriptor :: descriptor where
  "exampleDescriptor =
     \<lparr>script = Some \<lparr>block_type = ''script'', content = ''export default {}'',
                       src = None, attrs = []\<rparr>,
      scriptSetup = None,
      scriptCompiled = None,
      template = Some \<lparr>block_type = ''template'', content = ''<div/>'',
                         src = None, attrs = []\<rparr>,
      styles = [\<lparr>block_type = ''style'', content = ''a {}'', src = None, attrs = [],
                  scoped = False, module = ModuleUndefined\<rparr>,
                \<lparr>block_type = ''style'', content = ''.b {}'', src = None,
                  attrs = [(''module'', AttrString ''classes'')],
                  scoped = False, module = ModuleName ''classes''\<rparr>],
      customBlocks = [\<lparr>block_type = ''docs'', content = ''# doc'', src = None, attrs = []\<rparr>,
                      \<lparr>block_type = ''i18n'', content = ''{}'', src = None,
                        attrs = [(''locale'', AttrString ''en'')]\<rparr>]\<rparr>"

text \<open>A document with a script-setup variant and a template.\<close>

definition exampleSetupDescriptor :: descriptor where
  "exampleSetupDescriptor =
     \<lparr>script = None,
      scriptSetup = Some \<lparr>block_type = ''script'', content = ''const n = 1'',
                            src = None, attrs = [(''setup'', AttrTrue)]\<rparr>,
      scriptCompiled = None,
      template = Some \<lparr>block_type = ''template'', content = ''<div/>'',
                         src = None, attrs = []\<rparr>,
      styles = [],
      customBlocks = []\<rparr>"

definition emptyState :: "(string \<times> string) plugin_state" where
  "emptyState = \<lparr>cache = Map.empty, reported = []\<rparr>"

section \<open>Reading addresses and query strings\<close>

text \<open>
  The spec's words "carries a query parameter" and "parsing the query string back"
  need a reader of addresses.
\<close>

text \<open>The parameters of an address: what follows the first \<open>?\<close>, split at \<open>&\<close>.\<close>

definition queryParams :: "string \<Rightarrow> string list" where
  "queryParams addr = split_on (CHR ''&'') (drop 1 (dropWhile (\<lambda>c. c \<noteq> CHR ''?'') addr))"

definition carriesId :: "string \<Rightarrow> string \<Rightarrow> bool" where
  "carriesId addr token = (''id='' @ token \<in> set (queryParams addr))"

text \<open>
  Node's \<open>querystring.parse\<close>, which the plugin applies to the addresses it is asked
  to resolve: the string is cut at \<open>&\<close>, at most 1000 pieces are read (\<open>maxKeys\<close>),
  empty pieces are skipped, a piece is cut at its first \<open>=\<close>, and key and value are
  unescaped (\<open>+\<close> is a space, \<open>%XX\<close> is a byte). The pairs are added to an object
  one after the other (\<open>addKeyValue\<close>): a key seen again gathers its values in an array.
  Strings are the UTF-8 bytes of JavaScript strings; the library turns bytes that are not
  well-formed UTF-8 into U+FFFD, so the model is \<open>querystring.parse\<close> where the unescaped
  keys and values are well-formed.
\<close>

definition isHex :: "char \<Rightarrow> bool" where
  "isHex c = (c \<in> set ''0123456789ABCDEFabcdef'')"

definition hexval :: "char \<Rightarrow> nat" where
  "hexval c =
     (if c \<in> set ''0123456789'' then of_char c - 48
      else if c \<in> set ''ABCDEF'' then of_char c - 55
      else of_char c - 87)"

fun qs_unescape :: "string \<Rightarrow> string" where
  "qs_unescape [] = []"
| "qs_unescape (c # h1 # h2 # rest) =
     (if c = CHR ''%'' \<and> isHex h1 \<and> isHex h2
      then char_of (16 * hexval h1 + hexval h2) # qs_unescape rest
      else (if c = CHR ''+'' then CHR '' '' else c) # qs_unescape (h1 # h2 # rest))"
| "qs_unescape (c # cs) = (if c = CHR ''+'' then CHR '' '' else c) # qs_unescape cs"

definition parsePair :: "string \<Rightarrow> string \<times> string" where
  "parsePair piece =
     (qs_unescape (takeWhile (\<lambda>c. c \<noteq> CHR ''='') piece),
      qs_unescape (drop 1 (dropWhile (\<lambda>c. c \<noteq> CHR ''='') piece)))"

definition qs_pairs :: "string \<Rightarrow> (string \<times> string) list" where
  "qs_pairs s =
     map parsePair (filter (\<lambda>piece. piece \<noteq> []) (take 1000 (split_on (CHR ''&'') s)))"

datatype js_value = JsTrue | JsString string | JsArray "js_value list"

definition addKeyValue ::
  "string \<times> string \<Rightarrow> (string \<rightharpoonup> js_value) \<Rightarrow> (string \<rightharpoonup> js_value)" where
  "addKeyValue kv obj =
     (case obj (fst kv) of
        None \<Rightarrow> obj(fst kv \<mapsto> JsString (snd kv))
      | Some (JsArray vs) \<Rightarrow> obj(fst kv \<mapsto> JsArray (vs @ [JsString (snd kv)]))
      | Some cur \<Rightarrow> obj(fst kv \<mapsto> JsArray [cur, JsString (snd kv)]))"

definition qs_parse :: "string \<Rightarrow> (string \<rightharpoonup> js_value)" where
  "qs_parse s = fold addKeyValue (qs_pairs s) Map.empty"

definition continuation :: "char \<Rightarrow> bool" where
  "continuation c = (0x80 \<le> (of_char c :: nat) \<and> (of_char c :: nat) \<le> 0xBF)"

fun wellFormedUtf8 :: "string \<Rightarrow> bool" where
  "wellFormedUtf8 [] = True"
| "wellFormedUtf8 (a # s) =
     (let x = (of_char a :: nat) in
      if x < 0x80 then wellFormedUtf8 s
      else if 0xC2 \<le> x \<and> x \<le> 0xDF
      then (case s of
              b # s1 \<Rightarrow> continuation b \<and> wellFormedUtf8 s1
            | _ \<Rightarrow> False)
      else if 0xE0 \<le> x \<and> x \<le> 0xEF
      then (case s of
              b # c # s2 \<Rightarrow>
                continuation b \<and> continuation c
                \<and> (if x = 0xE0 then 0xA0 \<le> (of_char b :: nat) else True)
                \<and> (if x = 0xED then (of_char b :: nat) \<le> 0x9F else True)
                \<and> wellFormedUtf8 s2
            | _ \<Rightarrow> False)
      else if 0xF0 \<le> x \<and> x \<le> 0xF4
      then (case s of
              b # c # d # s3 \<Rightarrow>
                continuation b \<and> continuation c \<and> continuation d
                \<and> (if x = 0xF0 then 0x90 \<le> (of_char b :: nat) else True)
                \<and> (if x = 0xF4 then (of_char b :: nat) \<le> 0x8F else True)
                \<and> wellFormedUtf8 s3
            | _ \<Rightarrow> False)
      else False)"

declare wellFormedUtf8.simps [simp del]

text \<open>
  The round trip as the spec words it: the parsed object against the original map
  without the reserved keys, both as objects of JavaScript values (an attribute value
  is a string or \<open>true\<close>).
\<close>

fun attrJs :: "attr_value \<Rightarrow> js_value" where
  "attrJs AttrTrue = JsTrue"
| "attrJs (AttrString s) = JsString s"

definition attrsObject :: "attrs_map \<Rightarrow> (string \<rightharpoonup> js_value)" where
  "attrsObject m = map_of (map (\<lambda>(k, v). (k, attrJs v)) m)"

definition stringsObject :: "(string \<times> string) list \<Rightarrow> (string \<rightharpoonup> js_value)" where
  "stringsObject ps = map_of (map (\<lambda>(k, s). (k, JsString s)) ps)"

definition withoutReserved :: "attrs_map \<Rightarrow> attrs_map" where
  "withoutReserved m = filter (\<lambda>(k, v). k \<notin> set ignoreList) m"

definition stringValues :: "attrs_map \<Rightarrow> (string \<times> string) list" where
  "stringValues m = map (\<lambda>(k, v). (k, String_attr v)) m"

text \<open>What one attribute that is not reserved adds to the query.\<close>

fun attrParam :: "string \<times> attr_value \<Rightarrow> string" where
  "attrParam (name, v) =
     ''&'' @ qs_escape name @ (if truthy_attr v then ''='' @ qs_escape (String_attr v) else [])"

text \<open>
  The language suffix as the spec words it (section 4.3, rule 3): present when a
  fallback was supplied or the map declares \<open>lang\<close>; the language is the fallback when
  forced, otherwise the map's own \<open>lang\<close> if present, otherwise the fallback.
\<close>

definition langChoice :: "attrs_map \<Rightarrow> string option \<Rightarrow> bool \<Rightarrow> string" where
  "langChoice m langFallback forceLangFallback =
     (if forceLangFallback then interpolate_string_opt langFallback
      else (case map_of m ''lang'' of
              Some v \<Rightarrow> String_attr v
            | None \<Rightarrow> interpolate_string_opt langFallback))"

definition langSuffix_spec :: "attrs_map \<Rightarrow> string option \<Rightarrow> bool \<Rightarrow> string" where
  "langSuffix_spec m langFallback forceLangFallback =
     (if langFallback \<noteq> None \<or> ''lang'' \<in> fst ` set m
      then ''&lang.'' @ langChoice m langFallback forceLangFallback
      else [])"

text \<open>
  What one style section adds to the generated text, as a function of the section, its
  index and whether an earlier section was a CSS module.
\<close>

definition isModuleStyle :: "style_block \<Rightarrow> bool" where
  "isModuleStyle style = truthy_module (module style)"

definition styleText ::
  "('e, 'r, 't) externals \<Rightarrow> string \<Rightarrow> string \<Rightarrow> bool \<Rightarrow> bool \<Rightarrow> style_block \<Rightarrow> nat
     \<Rightarrow> string" where
  "styleText X resourcePath ident preprocess earlierModule style i =
     (if isModuleStyle style
      then (if earlierModule then []
            else [CHR 0x0A] @ ''const cssModules = script.__cssModules = {}'')
           @ [CHR 0x0A] @ ''import ''
           @ JSON_stringify X (styleRequestWithoutModule style i resourcePath ident preprocess)
           @ [CHR 0x0A] @ ''import style'' @ string_of_nat i @ '' from ''
           @ JSON_stringify X (styleRequest style i resourcePath ident preprocess @ ''.js'')
           @ [CHR 0x0A] @ ''cssModules['' @ [CHR 0x22] @ moduleVarName (module style)
           @ [CHR 0x22] @ ''] = style'' @ string_of_nat i
      else [CHR 0x0A] @ ''import ''
           @ JSON_stringify X (styleRequest style i resourcePath ident preprocess))"

text \<open>
  The words "binds the render function to a no-op placeholder": the text contains the
  placeholder statement of \<open>genTemplateCode\<close>.
\<close>

definition bindsRenderPlaceholder :: "bool \<Rightarrow> string \<Rightarrow> bool" where
  "bindsRenderPlaceholder isServer text =
     sublist (''const '' @ renderFnName isServer @ '' = () => {}'') text"

section \<open>Properties\<close>

lemmas example_defs =
  exampleExternals_def exampleCompile_def exampleOptions_def exampleDescriptor_def
  exampleSetupDescriptor_def emptyState_def posixRelative_def pathSegments_def

lemmas encoder_defs =
  attrsToQuery_def ignoreList_def qs_escape_def escape_char_def noEscape_def hex_digit_def
  truthy_string_opt_def truthy_attr_opt_def interpolate_attr_opt_def
  interpolate_string_opt_def or_else_def

subsection \<open>The template address\<close>

lemma outputLines_template_line:
  "fst (outputLines X d text resourcePath opts sourceRoot isProduction isServer filt) ! 1
     = templateImport X d resourcePath (scopeId X text resourcePath sourceRoot isProduction)
         isServer"
  by (simp add: outputLines_def Let_def split_def nth_append)

text \<open>
  C1. The second line of the assembled output is the import of the template address
  when the document has a template and (server rendering is on or there is no
  script-setup variant), and is empty otherwise. So a template address is generated
  exactly under that condition, and then it is one address. In particular a document
  with a template and a script-setup variant gets no template address with server
  rendering off and exactly one with server rendering on.
\<close>

theorem template_address_iff:
  "fst (outputLines X d text resourcePath opts sourceRoot isProduction isServer filt) ! 1
     = (case template d of
          None \<Rightarrow> []
        | Some t \<Rightarrow>
            if isServer \<or> scriptSetup d = None
            then ''import { '' @ renderFnName isServer @ '' } from ''
                   @ JSON_stringify X
                       (templateAddress t resourcePath
                          (scopeId X text resourcePath sourceRoot isProduction))
            else [])"
  unfolding outputLines_template_line
  by (simp add: templateImport_def hasTemplateImport_def genTemplateCode_def
      split: option.splits)

theorem template_address_iff_witness:
  "fst (outputLines (exampleExternals exampleSetupDescriptor []) exampleSetupDescriptor
          ''text'' ''/proj/src/App.vue'' exampleOptions ''/proj'' False False (\<lambda>t. True)) ! 1
     = []
   \<and> fst (outputLines (exampleExternals exampleSetupDescriptor []) exampleSetupDescriptor
          ''text'' ''/proj/src/App.vue'' exampleOptions ''/proj'' False True (\<lambda>t. True)) ! 1
     = ''import { ssrRender } from '' @ [CHR 0x22]
         @ ''/proj/src/App.vue?vue&type=template&id=7ba5bd90&lang.js'' @ [CHR 0x22]"
  using template_address_iff [of "exampleExternals exampleSetupDescriptor []"
      exampleSetupDescriptor "''text''" "''/proj/src/App.vue''" exampleOptions "''/proj''"
      False False "\<lambda>t. True"]
    template_address_iff [of "exampleExternals exampleSetupDescriptor []"
      exampleSetupDescriptor "''text''" "''/proj/src/App.vue''" exampleOptions "''/proj''"
      False True "\<lambda>t. True"]
  by (simp add: example_defs encoder_defs templateAddress_def renderFnName_def scopeId_def)

subsection \<open>The scope token\<close>

lemma stripParentEscapes_up:
  "u = ''../'' \<or> u = ''..'' @ [CHR 0x5C] \<Longrightarrow> stripParentEscapes (u @ s) = stripParentEscapes s"
  by auto

lemma stripParentEscapes_rest:
  assumes "\<not> prefix ''../'' rest" and "\<not> prefix (''..'' @ [CHR 0x5C]) rest"
  shows "stripParentEscapes rest = rest"
proof (cases rest rule: stripParentEscapes.cases)
  case (1 a b c r)
  with assms show ?thesis by auto
qed simp_all

lemma stripParentEscapes_concat:
  assumes "set ups \<subseteq> {''../'', ''..'' @ [CHR 0x5C]}"
    and "\<not> prefix ''../'' rest" and "\<not> prefix (''..'' @ [CHR 0x5C]) rest"
  shows "stripParentEscapes (concat ups @ rest) = rest"
  using assms(1)
proof (induction ups)
  case Nil
  then show ?case using stripParentEscapes_rest [OF assms(2,3)] by simp
next
  case (Cons u ups)
  then have "u = ''../'' \<or> u = ''..'' @ [CHR 0x5C]" by auto
  from stripParentEscapes_up [OF this, of "concat ups @ rest"] Cons show ?case by simp
qed

lemma parent_escapes_exist:
  "\<exists>ups rest. s = concat ups @ rest \<and> set ups \<subseteq> {''../'', ''..'' @ [CHR 0x5C]}
       \<and> \<not> prefix ''../'' rest \<and> \<not> prefix (''..'' @ [CHR 0x5C]) rest"
proof (induction s rule: stripParentEscapes.induct)
  case (1 a b c r)
  show ?case
  proof (cases "a = CHR ''.'' \<and> b = CHR ''.'' \<and> (c = CHR ''/'' \<or> c = CHR 0x5C)")
    case True
    with "1" obtain ups rest where r: "r = concat ups @ rest"
      and u: "set ups \<subseteq> {''../'', ''..'' @ [CHR 0x5C]}"
      and n: "\<not> prefix ''../'' rest" "\<not> prefix (''..'' @ [CHR 0x5C]) rest"
      by blast
    from True r have "a # b # c # r = concat ([a, b, c] # ups) @ rest" by simp
    moreover from True u have "set ([a, b, c] # ups) \<subseteq> {''../'', ''..'' @ [CHR 0x5C]}"
      by auto
    ultimately show ?thesis using n by blast
  next
    case False
    then have "\<not> prefix ''../'' (a # b # c # r)"
      and "\<not> prefix (''..'' @ [CHR 0x5C]) (a # b # c # r)" by auto
    then show ?thesis
      by (intro exI [of _ "[]"] exI [of _ "a # b # c # r"]) simp
  qed
qed (rule exI [of _ "[]"], simp)+

text \<open>
  C5. The relative path from the source root to the resource is some number of leading
  \<open>../\<close> or \<open>..\\<close> followed by a rest that does not begin with one; the normalised
  relative path is that rest with every backslash turned into a slash. The scope token
  is the hash of the normalised relative path, a newline and the document text in
  production (content-sensitive) mode, and the hash of the normalised relative path
  alone otherwise. The token depends on the paths only through the normalised relative
  path. Two different texts give different hash inputs in production mode; outside
  production mode the text does not enter the hash input, and the token is the same.
\<close>

theorem scope_token_policy:
  "(\<exists>ups rest. path_relative X sourceRoot resourcePath = concat ups @ rest
       \<and> set ups \<subseteq> {''../'', ''..'' @ [CHR 0x5C]}
       \<and> \<not> prefix ''../'' rest \<and> \<not> prefix (''..'' @ [CHR 0x5C]) rest)
   \<and> (\<forall>ups rest. path_relative X sourceRoot resourcePath = concat ups @ rest
         \<and> set ups \<subseteq> {''../'', ''..'' @ [CHR 0x5C]}
         \<and> \<not> prefix ''../'' rest \<and> \<not> prefix (''..'' @ [CHR 0x5C]) rest
         \<longrightarrow> scopeIdInput X text resourcePath sourceRoot isProduction
               = map (\<lambda>c. if c = CHR 0x5C then CHR ''/'' else c) rest
                 @ (if isProduction then [CHR 0x0A] @ text else [])
             \<and> scopeId X text resourcePath sourceRoot isProduction
               = hash X (map (\<lambda>c. if c = CHR 0x5C then CHR ''/'' else c) rest
                          @ (if isProduction then [CHR 0x0A] @ text else [])))
   \<and> (shortFilePath X sourceRoot resourcePath = shortFilePath X sourceRoot' resourcePath'
        \<longrightarrow> scopeId X text resourcePath sourceRoot isProduction
              = scopeId X text resourcePath' sourceRoot' isProduction)
   \<and> (text \<noteq> text' \<longrightarrow>
        scopeIdInput X text resourcePath sourceRoot True
          \<noteq> scopeIdInput X text' resourcePath sourceRoot True)
   \<and> scopeIdInput X text resourcePath sourceRoot False
        = scopeIdInput X text' resourcePath sourceRoot False
   \<and> scopeId X text resourcePath sourceRoot False
        = scopeId X text' resourcePath sourceRoot False"
proof (intro conjI allI impI)
  show "\<exists>ups rest. path_relative X sourceRoot resourcePath = concat ups @ rest
       \<and> set ups \<subseteq> {''../'', ''..'' @ [CHR 0x5C]}
       \<and> \<not> prefix ''../'' rest \<and> \<not> prefix (''..'' @ [CHR 0x5C]) rest"
    by (rule parent_escapes_exist)
next
  fix ups rest
  assume h: "path_relative X sourceRoot resourcePath = concat ups @ rest
         \<and> set ups \<subseteq> {''../'', ''..'' @ [CHR 0x5C]}
         \<and> \<not> prefix ''../'' rest \<and> \<not> prefix (''..'' @ [CHR 0x5C]) rest"
  then have "stripParentEscapes (path_relative X sourceRoot resourcePath) = rest"
    using stripParentEscapes_concat [of ups rest] by simp
  then have n: "shortFilePath X sourceRoot resourcePath
                  = map (\<lambda>c. if c = CHR 0x5C then CHR ''/'' else c) rest"
    by (simp add: shortFilePath_def slashes_def)
  show "scopeIdInput X text resourcePath sourceRoot isProduction
               = map (\<lambda>c. if c = CHR 0x5C then CHR ''/'' else c) rest
                 @ (if isProduction then [CHR 0x0A] @ text else [])"
    by (simp add: scopeIdInput_def n)
  show "scopeId X text resourcePath sourceRoot isProduction
               = hash X (map (\<lambda>c. if c = CHR 0x5C then CHR ''/'' else c) rest
                          @ (if isProduction then [CHR 0x0A] @ text else []))"
    by (simp add: scopeId_def scopeIdInput_def n)
next
  assume "shortFilePath X sourceRoot resourcePath = shortFilePath X sourceRoot' resourcePath'"
  then show "scopeId X text resourcePath sourceRoot isProduction
              = scopeId X text resourcePath' sourceRoot' isProduction"
    by (simp add: scopeId_def scopeIdInput_def)
next
  assume "text \<noteq> text'"
  then show "scopeIdInput X text resourcePath sourceRoot True
          \<noteq> scopeIdInput X text' resourcePath sourceRoot True"
    by (simp add: scopeIdInput_def)
next
  show "scopeIdInput X text resourcePath sourceRoot False
        = scopeIdInput X text' resourcePath sourceRoot False"
    by (simp add: scopeIdInput_def)
  show "scopeId X text resourcePath sourceRoot False
        = scopeId X text' resourcePath sourceRoot False"
    by (simp add: scopeId_def scopeIdInput_def)
qed

theorem scope_token_policy_witness:
  "path_relative (exampleExternals exampleDescriptor []) ''/proj/packages/app''
       ''/proj/src/App.vue'' = concat [''../'', ''../''] @ ''src/App.vue''
   \<and> scopeIdInput (exampleExternals exampleDescriptor []) ''<a/>'' ''/proj/src/App.vue''
         ''/proj/packages/app'' True = ''src/App.vue'' @ [CHR 0x0A] @ ''<a/>''
   \<and> scopeId (exampleExternals exampleDescriptor []) ''<a/>'' ''/proj/src/App.vue''
         ''/proj/packages/app'' True
       = hash (exampleExternals exampleDescriptor []) (''src/App.vue'' @ [CHR 0x0A] @ ''<a/>'')
   \<and> path_relative (exampleExternals exampleDescriptor []) ''/proj''
         (''/proj/src/a'' @ [CHR 0x5C] @ ''b.vue'') = concat [] @ ''src/a'' @ [CHR 0x5C] @ ''b.vue''
   \<and> scopeIdInput (exampleExternals exampleDescriptor []) ''<a/>''
         (''/proj/src/a'' @ [CHR 0x5C] @ ''b.vue'') ''/proj'' False = ''src/a/b.vue''
   \<and> ''<a/>'' \<noteq> ''<b/>''
   \<and> scopeIdInput (exampleExternals exampleDescriptor []) ''<a/>'' ''/proj/src/App.vue''
         ''/proj/packages/app'' True
       \<noteq> scopeIdInput (exampleExternals exampleDescriptor []) ''<b/>'' ''/proj/src/App.vue''
           ''/proj/packages/app'' True"
proof -
  let ?X = "exampleExternals exampleDescriptor []"
  let ?bs = "''/proj/src/a'' @ [CHR 0x5C] @ ''b.vue''"
  have r1: "path_relative ?X ''/proj/packages/app'' ''/proj/src/App.vue''
              = concat [''../'', ''../''] @ ''src/App.vue''"
    by (simp add: example_defs)
  have h1: "path_relative ?X ''/proj/packages/app'' ''/proj/src/App.vue''
              = concat [''../'', ''../''] @ ''src/App.vue''
            \<and> set [''../'', ''../''] \<subseteq> {''../'', ''..'' @ [CHR 0x5C]}
            \<and> \<not> prefix ''../'' ''src/App.vue''
            \<and> \<not> prefix (''..'' @ [CHR 0x5C]) ''src/App.vue''"
    using r1 by simp
  have r2: "path_relative ?X ''/proj'' ?bs = concat [] @ ''src/a'' @ [CHR 0x5C] @ ''b.vue''"
    by (simp add: example_defs)
  have h2: "path_relative ?X ''/proj'' ?bs = concat [] @ (''src/a'' @ [CHR 0x5C] @ ''b.vue'')
            \<and> set [] \<subseteq> {''../'', ''..'' @ [CHR 0x5C]}
            \<and> \<not> prefix ''../'' (''src/a'' @ [CHR 0x5C] @ ''b.vue'')
            \<and> \<not> prefix (''..'' @ [CHR 0x5C]) (''src/a'' @ [CHR 0x5C] @ ''b.vue'')"
    using r2 by simp
  note t1 = scope_token_policy [of ?X "''/proj/packages/app''" "''/proj/src/App.vue''"
      "''<a/>''" True "''/proj/packages/app''" "''/proj/src/App.vue''" "''<b/>''"]
  note t2 = scope_token_policy [of ?X "''/proj''" ?bs "''<a/>''" False "''/proj''" ?bs
      "''<b/>''"]
  note a1 = t1 [THEN conjunct2, THEN conjunct1, rule_format, OF h1]
  note a2 = t2 [THEN conjunct2, THEN conjunct1, rule_format, OF h2]
  have d: "''<a/>'' \<noteq> ''<b/>''" by simp
  note a3 = t1 [THEN conjunct2, THEN conjunct2, THEN conjunct2, THEN conjunct1, THEN mp, OF d]
  have i1: "scopeIdInput ?X ''<a/>'' ''/proj/src/App.vue'' ''/proj/packages/app'' True
              = ''src/App.vue'' @ [CHR 0x0A] @ ''<a/>''"
    using a1 [THEN conjunct1] by simp
  have s1: "scopeId ?X ''<a/>'' ''/proj/src/App.vue'' ''/proj/packages/app'' True
              = hash ?X (''src/App.vue'' @ [CHR 0x0A] @ ''<a/>'')"
    using a1 [THEN conjunct2] by simp
  have i2: "scopeIdInput ?X ''<a/>'' ?bs ''/proj'' False = ''src/a/b.vue''"
    using a2 [THEN conjunct1] by simp
  show ?thesis
    by (intro conjI) (rule r1 i1 s1 r2 i2 d a3)+
qed

subsection \<open>Parser diagnostics and the descriptor cache\<close>

lemma reportErrors_Cons:
  "reportErrors X resourcePath (e # es) st
     = (Raised (createRollupError X resourcePath e),
        st\<lparr>reported := reported st @ [createRollupError X resourcePath e]\<rparr>)"
  by (simp add: pluginContext_error_def)

lemma transformSFCEntry_errors:
  assumes "parse X text resourcePath sourceRoot = (d, e # es)"
  shows "transformSFCEntry X text resourcePath opts sourceRoot isProduction isServer filt st
           = (Raised (createRollupError X resourcePath e),
              \<lparr>cache = (cache st)(resourcePath \<mapsto> d),
               reported = reported st @ [createRollupError X resourcePath e]\<rparr>)"
  using assms
  by (simp add: transformSFCEntry_def pluginContext_error_def setDescriptor_def)

lemma transformSFCEntry_success:
  assumes "parse X text resourcePath sourceRoot = (d, [])"
  shows "transformSFCEntry X text resourcePath opts sourceRoot isProduction isServer filt st
           = (Returned (Some \<lparr>out_code = join [CHR 0x0A]
                       (fst (outputLines X d text resourcePath opts sourceRoot isProduction
                               isServer filt)),
                    out_map_mappings = []\<rparr>),
              st\<lparr>cache := (cache st)(resourcePath \<mapsto>
                     snd (outputLines X d text resourcePath opts sourceRoot isProduction
                            isServer filt))\<rparr>)"
  using assms
  by (simp add: transformSFCEntry_def setDescriptor_def split_def Let_def)

lemma outputLines_descriptor:
  "snd (outputLines X d text resourcePath opts sourceRoot isProduction isServer filt)
     = compiledDescriptor X d (scopeId X text resourcePath sourceRoot isProduction)
         isProduction isServer
         (getTemplateCompilerOptions X opts d
            (scopeId X text resourcePath sourceRoot isProduction))"
  by (simp add: outputLines_def genScriptCode_def Let_def split_def split: option.splits)

text \<open>
  C9. The source loops over all diagnostics and has \<open>return null\<close> after the loop, but
  \<open>pluginContext.error\<close> raises: when the parser returns at least one diagnostic, the
  transform is left by the raise of the first one, wrapped by \<open>createRollupError\<close> with
  the resource path. No later diagnostic is handed to the plugin context and \<open>null\<close> is
  not returned. The assembler does not run: the cached document is the parsed one,
  without the \<open>scriptCompiled\<close> that the assembler would assign.
\<close>

theorem diagnostics_raise_first:
  assumes "parse X text resourcePath sourceRoot = (d, e # es)"
  shows "fst (transformSFCEntry X text resourcePath opts sourceRoot isProduction isServer
                filt st) = Raised (createRollupError X resourcePath e)
         \<and> fst (transformSFCEntry X text resourcePath opts sourceRoot isProduction isServer
                filt st) \<noteq> Returned None
         \<and> reported (snd (transformSFCEntry X text resourcePath opts sourceRoot isProduction
                isServer filt st))
             = reported st @ [createRollupError X resourcePath e]
         \<and> cache (snd (transformSFCEntry X text resourcePath opts sourceRoot isProduction
                isServer filt st)) resourcePath = Some d"
  using assms by (simp add: transformSFCEntry_errors)

theorem diagnostics_raise_first_witness:
  "parse (exampleExternals exampleDescriptor [''Element is missing end tag.'', ''Invalid end tag.''])
       ''<template>'' ''/proj/src/App.vue'' ''/proj''
     = (exampleDescriptor, [''Element is missing end tag.'', ''Invalid end tag.''])
   \<and> fst (transformSFCEntry
            (exampleExternals exampleDescriptor [''Element is missing end tag.'', ''Invalid end tag.''])
            ''<template>'' ''/proj/src/App.vue'' exampleOptions ''/proj'' False False
            (\<lambda>t. True) emptyState)
       = Raised (''/proj/src/App.vue'', ''Element is missing end tag.'')
   \<and> reported (snd (transformSFCEntry
            (exampleExternals exampleDescriptor [''Element is missing end tag.'', ''Invalid end tag.''])
            ''<template>'' ''/proj/src/App.vue'' exampleOptions ''/proj'' False False
            (\<lambda>t. True) emptyState))
       = [(''/proj/src/App.vue'', ''Element is missing end tag.'')]"
proof -
  let ?X = "exampleExternals exampleDescriptor
              [''Element is missing end tag.'', ''Invalid end tag.'']"
  have p: "parse ?X ''<template>'' ''/proj/src/App.vue'' ''/proj''
             = (exampleDescriptor, [''Element is missing end tag.'', ''Invalid end tag.''])"
    by (simp add: exampleExternals_def)
  show ?thesis
    using diagnostics_raise_first [OF p, of exampleOptions False False "\<lambda>t. True"
        emptyState] p
    by (simp add: exampleExternals_def emptyState_def)
qed

text \<open>
  C10. The cache entry of the resource is written before the diagnostics are looked at.
  After every transform the entry of the resource path is the newly parsed document,
  whatever was cached before (on success with the \<open>scriptCompiled\<close> the assembler
  assigned to that same object), and no other entry changes. In particular a transform
  that is aborted because of diagnostics (the plugin context raises the first one) has
  replaced the entry.
\<close>

theorem cache_overwritten_before_error_check:
  assumes "parse X text resourcePath sourceRoot = (d, errs)"
  shows "cache (snd (transformSFCEntry X text resourcePath opts sourceRoot isProduction
                  isServer filt st)) resourcePath
           = Some (if errs \<noteq> [] then d
                   else compiledDescriptor X d
                          (scopeId X text resourcePath sourceRoot isProduction)
                          isProduction isServer
                          (getTemplateCompilerOptions X opts d
                             (scopeId X text resourcePath sourceRoot isProduction)))
         \<and> (\<forall>other. other \<noteq> resourcePath \<longrightarrow>
               cache (snd (transformSFCEntry X text resourcePath opts sourceRoot isProduction
                  isServer filt st)) other = cache st other)
         \<and> (errs \<noteq> [] \<longrightarrow>
               fst (transformSFCEntry X text resourcePath opts sourceRoot isProduction
                  isServer filt st) = Raised (createRollupError X resourcePath (hd errs))
               \<and> cache (snd (transformSFCEntry X text resourcePath opts sourceRoot
                  isProduction isServer filt st)) = (cache st)(resourcePath \<mapsto> d))"
proof (cases "errs = []")
  case True
  with assms show ?thesis
    by (simp add: transformSFCEntry_success outputLines_descriptor)
next
  case False
  then obtain e es where "errs = e # es" by (cases errs) simp_all
  with assms show ?thesis
    by (simp add: transformSFCEntry_errors)
qed

theorem cache_overwritten_before_error_check_witness:
  "parse (exampleExternals exampleDescriptor [''Invalid end tag.''])
       ''<template>'' ''/proj/src/App.vue'' ''/proj''
     = (exampleDescriptor, [''Invalid end tag.''])
   \<and> fst (transformSFCEntry (exampleExternals exampleDescriptor [''Invalid end tag.''])
            ''<template>'' ''/proj/src/App.vue'' exampleOptions ''/proj'' False False
            (\<lambda>t. True)
            (emptyState\<lparr>cache := [''/proj/src/App.vue'' \<mapsto> exampleSetupDescriptor,
                                   ''/proj/src/B.vue'' \<mapsto> exampleSetupDescriptor]\<rparr>))
       = Raised (''/proj/src/App.vue'', ''Invalid end tag.'')
   \<and> cache (snd (transformSFCEntry (exampleExternals exampleDescriptor [''Invalid end tag.''])
            ''<template>'' ''/proj/src/App.vue'' exampleOptions ''/proj'' False False
            (\<lambda>t. True)
            (emptyState\<lparr>cache := [''/proj/src/App.vue'' \<mapsto> exampleSetupDescriptor,
                                   ''/proj/src/B.vue'' \<mapsto> exampleSetupDescriptor]\<rparr>)))
       = [''/proj/src/App.vue'' \<mapsto> exampleDescriptor,
          ''/proj/src/B.vue'' \<mapsto> exampleSetupDescriptor]"
proof -
  let ?X = "exampleExternals exampleDescriptor [''Invalid end tag.'']"
  have p: "parse ?X ''<template>'' ''/proj/src/App.vue'' ''/proj''
             = (exampleDescriptor, [''Invalid end tag.''])"
    by (simp add: exampleExternals_def)
  show ?thesis
    using cache_overwritten_before_error_check [OF p, of exampleOptions False False
        "\<lambda>t. True"
        "emptyState\<lparr>cache := [''/proj/src/App.vue'' \<mapsto> exampleSetupDescriptor,
                                ''/proj/src/B.vue'' \<mapsto> exampleSetupDescriptor]\<rparr>"] p
    by (auto simp add: emptyState_def exampleExternals_def fun_upd_twist)
qed

subsection \<open>Custom blocks\<close>

lemma string_of_nat_small [simp]:
  "string_of_nat 0 = ''0''" "string_of_nat (Suc 0) = ''1''" "string_of_nat 1 = ''1''"
  by code_simp+

lemma blocks_loop_concat:
  "blocks_loop X resourcePath filt bs i acc
     = acc @ concat (map (\<lambda>(j, b). if filt (block_type b)
                                      then customBlockLines X b j resourcePath else [])
                       (enumerate i bs))"
  by (induction bs arbitrary: i acc) simp_all

text \<open>
  C8. The text for the custom blocks is the concatenation, in parse order, of one
  contribution per block: the import line and the invocation line of the block's
  address when the filter accepts the block's type, and nothing when it rejects it.
  The index in the address and in the lines is the block's position among all custom
  blocks, rejected ones included, and the address reads
  \<open>?vue&type=<blockType>&index=<n>\<close> after the path.
\<close>

theorem custom_blocks_filtered:
  "getCustomBlock X d resourcePath filt
     = concat (map (\<lambda>(n, b). if filt (block_type b)
                                then ''import block'' @ string_of_nat n @ '' from ''
                                       @ JSON_stringify X (customBlockAddress b n resourcePath)
                                       @ [CHR 0x0A]
                                     @ ''if (typeof block'' @ string_of_nat n @ '' === ''
                                       @ [CHR 0x27] @ ''function'' @ [CHR 0x27]
                                       @ '') block'' @ string_of_nat n @ ''(script)''
                                       @ [CHR 0x0A]
                                else [])
                 (enumerate 0 (customBlocks d)))
   \<and> customBlockAddress b n resourcePath
       = or_else (src b) resourcePath @ ''?vue&type='' @ block_type b @ ''&index=''
           @ string_of_nat n @ (if truthy_string_opt (src b) then ''&src'' else [])
           @ attrsToQuery (attrs b) (Some (block_type b)) False"
  unfolding getCustomBlock_def blocks_loop_concat customBlockLines_def
  by (simp add: customBlockAddress_def)

theorem custom_blocks_filtered_witness:
  "getCustomBlock (exampleExternals exampleDescriptor []) exampleDescriptor
       ''/proj/src/App.vue'' (\<lambda>t. t = ''i18n'')
     = ''import block1 from '' @ [CHR 0x22]
         @ ''/proj/src/App.vue?vue&type=i18n&index=1&locale=en&lang.i18n'' @ [CHR 0x22]
         @ [CHR 0x0A] @ ''if (typeof block1 === '' @ [CHR 0x27] @ ''function'' @ [CHR 0x27]
         @ '') block1(script)'' @ [CHR 0x0A]"
  using custom_blocks_filtered [of "exampleExternals exampleDescriptor []" exampleDescriptor
      "''/proj/src/App.vue''" "\<lambda>t. t = ''i18n''"]
  by (simp add: example_defs encoder_defs customBlockAddress_def enumerate_eq_zip upt_rec)

subsection \<open>The output without a template import\<close>

lemma styles_compiledDescriptor [simp]:
  "styles (compiledDescriptor X d ident isProd isServer topts) = styles d"
  by (simp add: compiledDescriptor_def split: option.splits)

lemma customBlocks_compiledDescriptor [simp]:
  "customBlocks (compiledDescriptor X d ident isProd isServer topts) = customBlocks d"
  by (simp add: compiledDescriptor_def split: option.splits)

lemma genScriptCode_descriptor:
  "snd (genScriptCode X d resourcePath ident isProd isServer topts)
     = compiledDescriptor X d ident isProd isServer topts"
  by (simp add: genScriptCode_def Let_def split: option.splits)

lemma outputLines_shape:
  "\<exists>rest. fst (outputLines X d text resourcePath opts sourceRoot isProduction isServer filt)
            = [fst (genScriptCode X d resourcePath
                      (scopeId X text resourcePath sourceRoot isProduction) isProduction isServer
                      (getTemplateCompilerOptions X opts d
                         (scopeId X text resourcePath sourceRoot isProduction))),
               templateImport X d resourcePath
                 (scopeId X text resourcePath sourceRoot isProduction) isServer,
               genStyleCode X d resourcePath
                 (scopeId X text resourcePath sourceRoot isProduction) (preprocessStyles opts),
               getCustomBlock X d resourcePath filt,
               renderReplace d isServer] @ rest
          \<and> (\<forall>l \<in> set rest. prefix ''script.__'' l \<or> l = ''export default script'')"
  by (simp add: outputLines_def Let_def split_def genScriptCode_descriptor genStyleCode_def
      getCustomBlock_def)

text \<open>
  C7, as the code has it. When no template address is generated (no template, or a
  script-setup variant without server rendering), the assembled output has an empty
  line in place of the template import and an empty line in place of the render
  assignment; the lines after them only set \<open>script.__scopeId\<close> and \<open>script.__file\<close>
  and export the script. No line binds the render function, neither to the template's
  export nor to a placeholder.
\<close>

theorem no_template_address_no_render_binding:
  assumes "parse X text resourcePath sourceRoot = (d, [])"
    and "template d = None \<or> (\<not> isServer \<and> scriptSetup d \<noteq> None)"
  shows "\<exists>r rest.
           fst (transformSFCEntry X text resourcePath opts sourceRoot isProduction isServer
                  filt st) = Returned (Some r)
           \<and> out_code r
               = join [CHR 0x0A]
                   ([fst (genScriptCode X d resourcePath
                            (scopeId X text resourcePath sourceRoot isProduction)
                            isProduction isServer
                            (getTemplateCompilerOptions X opts d
                               (scopeId X text resourcePath sourceRoot isProduction))),
                     [],
                     genStyleCode X d resourcePath
                       (scopeId X text resourcePath sourceRoot isProduction)
                       (preprocessStyles opts),
                     getCustomBlock X d resourcePath filt,
                     []] @ rest)
           \<and> (\<forall>l \<in> set rest. prefix ''script.__'' l \<or> l = ''export default script'')"
proof -
  from assms(2) have no: "\<not> hasTemplateImport d isServer"
    by (auto simp add: hasTemplateImport_def)
  obtain rest where
    shape: "fst (outputLines X d text resourcePath opts sourceRoot isProduction isServer filt)
            = [fst (genScriptCode X d resourcePath
                      (scopeId X text resourcePath sourceRoot isProduction) isProduction isServer
                      (getTemplateCompilerOptions X opts d
                         (scopeId X text resourcePath sourceRoot isProduction))),
               templateImport X d resourcePath
                 (scopeId X text resourcePath sourceRoot isProduction) isServer,
               genStyleCode X d resourcePath
                 (scopeId X text resourcePath sourceRoot isProduction) (preprocessStyles opts),
               getCustomBlock X d resourcePath filt,
               renderReplace d isServer] @ rest"
    and rest: "\<forall>l \<in> set rest. prefix ''script.__'' l \<or> l = ''export default script''"
    using outputLines_shape by blast
  from no have "templateImport X d resourcePath
                  (scopeId X text resourcePath sourceRoot isProduction) isServer = []"
    and "renderReplace d isServer = []"
    by (simp_all add: templateImport_def renderReplace_def)
  with shape rest assms(1) show ?thesis
    by (simp add: transformSFCEntry_success) (rule exI [of _ rest], simp)
qed

theorem no_template_address_no_render_binding_witness:
  "parse (exampleExternals exampleSetupDescriptor []) ''text'' ''/proj/src/App.vue'' ''/proj''
     = (exampleSetupDescriptor, [])
   \<and> (template exampleSetupDescriptor = None
        \<or> (\<not> False \<and> scriptSetup exampleSetupDescriptor \<noteq> None))
   \<and> (\<exists>r rest.
         fst (transformSFCEntry (exampleExternals exampleSetupDescriptor []) ''text''
                ''/proj/src/App.vue'' exampleOptions ''/proj'' False False (\<lambda>t. True)
                emptyState) = Returned (Some r)
         \<and> out_code r
             = join [CHR 0x0A]
                 ([''import script from '' @ [CHR 0x22]
                     @ ''/proj/src/App.vue?vue&type=script&setup=true&lang.js''
                     @ [CHR 0x22, CHR 0x0A] @ ''export * from '' @ [CHR 0x22]
                     @ ''/proj/src/App.vue?vue&type=script&setup=true&lang.js'' @ [CHR 0x22],
                   [], [], [], []] @ rest))"
proof -
  let ?X = "exampleExternals exampleSetupDescriptor []"
  have p: "parse ?X ''text'' ''/proj/src/App.vue'' ''/proj'' = (exampleSetupDescriptor, [])"
    by (simp add: exampleExternals_def)
  have c: "template exampleSetupDescriptor = None
           \<or> (\<not> False \<and> scriptSetup exampleSetupDescriptor \<noteq> None)"
    by (simp add: exampleSetupDescriptor_def)
  have s: "fst (genScriptCode ?X exampleSetupDescriptor ''/proj/src/App.vue''
                 (scopeId ?X ''text'' ''/proj/src/App.vue'' ''/proj'' False) False False
                 (getTemplateCompilerOptions ?X exampleOptions exampleSetupDescriptor
                    (scopeId ?X ''text'' ''/proj/src/App.vue'' ''/proj'' False)))
           = ''import script from '' @ [CHR 0x22]
               @ ''/proj/src/App.vue?vue&type=script&setup=true&lang.js''
               @ [CHR 0x22, CHR 0x0A] @ ''export * from '' @ [CHR 0x22]
               @ ''/proj/src/App.vue?vue&type=script&setup=true&lang.js'' @ [CHR 0x22]"
    by (simp add: genScriptCode_def compiledDescriptor_def chosenScript_def scriptAddress_def
        example_defs encoder_defs)
  have t: "genStyleCode ?X exampleSetupDescriptor ''/proj/src/App.vue''
             (scopeId ?X ''text'' ''/proj/src/App.vue'' ''/proj'' False)
             (preprocessStyles exampleOptions) = []"
    by (simp add: genStyleCode_def exampleSetupDescriptor_def)
  have b: "getCustomBlock ?X exampleSetupDescriptor ''/proj/src/App.vue'' (\<lambda>t. True) = []"
    by (simp add: getCustomBlock_def exampleSetupDescriptor_def)
  show ?thesis
    using no_template_address_no_render_binding [OF p c, of exampleOptions False "\<lambda>t. True"
        emptyState] p c
    unfolding s t b by blast
qed

text \<open>
  C7 as the spec words it fails: the document with a script-setup variant, transformed
  without server rendering, gets no template address, and its output contains no
  placeholder binding of \<open>render\<close>.
\<close>

theorem render_placeholder_counterexample:
  "\<not> hasTemplateImport exampleSetupDescriptor False
   \<and> (case fst (transformSFCEntry (exampleExternals exampleSetupDescriptor []) ''text''
                   ''/proj/src/App.vue'' exampleOptions ''/proj'' False False (\<lambda>t. True)
                   emptyState) of
        Returned (Some r) \<Rightarrow>
          out_code r
            = ''import script from '' @ [CHR 0x22]
                @ ''/proj/src/App.vue?vue&type=script&setup=true&lang.js''
                @ [CHR 0x22, CHR 0x0A] @ ''export * from '' @ [CHR 0x22]
                @ ''/proj/src/App.vue?vue&type=script&setup=true&lang.js''
                @ [CHR 0x22, CHR 0x0A, CHR 0x0A, CHR 0x0A, CHR 0x0A, CHR 0x0A]
                @ ''script.__file = '' @ [CHR 0x22] @ ''src/App.vue'' @ [CHR 0x22, CHR 0x0A]
                @ ''export default script''
          \<and> \<not> bindsRenderPlaceholder False (out_code r)
      | _ \<Rightarrow> False)"
  by (simp add: transformSFCEntry_def outputLines_def genScriptCode_def compiledDescriptor_def
      chosenScript_def scriptAddress_def genStyleCode_def getCustomBlock_def
      templateImport_def renderReplace_def hasTemplateImport_def hasScoped_def
      shortFilePath_def slashes_def scopeId_def scopeIdInput_def setDescriptor_def
      truthy_bool_opt_def bindsRenderPlaceholder_def renderFnName_def sublist_Cons_right
      example_defs encoder_defs)

subsection \<open>The language suffix of the query encoder\<close>

lemma lang_declared_iff: "''lang'' \<in> fst ` set m \<longleftrightarrow> map_of m ''lang'' \<noteq> None"
  by (simp add: map_of_eq_None_iff)

text \<open>
  C4, as the code has it. The encoder appends \<open>&lang.<X>\<close> exactly when the fallback
  language is a non-empty string or the map's \<open>lang\<close> value is truthy (\<open>true\<close> or a
  non-empty string). Then \<open>X\<close> is the fallback when the force flag is set, otherwise
  the map's own \<open>lang\<close> value, otherwise the fallback (an absent fallback prints as
  \<open>undefined\<close>). Nothing else follows the encoded attributes.
\<close>

theorem lang_suffix_rule:
  "attrsToQuery m langFallback forceLangFallback
     = attrs_loop m []
       @ (if truthy_string_opt langFallback \<or> truthy_attr_opt (map_of m ''lang'')
          then ''&lang.'' @ langChoice m langFallback forceLangFallback
          else [])
   \<and> (langFallback \<noteq> Some [] \<and> map_of m ''lang'' \<noteq> Some (AttrString [])
        \<longrightarrow> attrsToQuery m langFallback forceLangFallback
              = attrs_loop m [] @ langSuffix_spec m langFallback forceLangFallback)"
proof -
  have a: "attrsToQuery m langFallback forceLangFallback
     = attrs_loop m []
       @ (if truthy_string_opt langFallback \<or> truthy_attr_opt (map_of m ''lang'')
          then ''&lang.'' @ langChoice m langFallback forceLangFallback
          else [])"
    by (cases "map_of m ''lang''")
      (simp_all add: attrsToQuery_def langChoice_def lang_declared_iff
        interpolate_attr_opt_def Let_def)
  have b: "truthy_string_opt langFallback \<or> truthy_attr_opt (map_of m ''lang'')
           \<longleftrightarrow> langFallback \<noteq> None \<or> ''lang'' \<in> fst ` set m"
    if "langFallback \<noteq> Some []" and "map_of m ''lang'' \<noteq> Some (AttrString [])"
  proof -
    have "truthy_string_opt langFallback \<longleftrightarrow> langFallback \<noteq> None"
      using that(1) by (cases langFallback) (simp_all add: truthy_string_opt_def)
    moreover have "truthy_attr_opt (map_of m ''lang'') \<longleftrightarrow> map_of m ''lang'' \<noteq> None"
    proof (cases "map_of m ''lang''")
      case None
      then show ?thesis by (simp add: truthy_attr_opt_def)
    next
      case (Some v)
      with that(2) show ?thesis by (cases v) (simp_all add: truthy_attr_opt_def)
    qed
    ultimately show ?thesis by (simp add: lang_declared_iff)
  qed
  show ?thesis using a b by (simp add: langSuffix_spec_def)
qed

theorem lang_suffix_rule_witness:
  "Some ''css'' \<noteq> Some [] \<and> map_of [(''lang'', AttrString ''scss'')] ''lang'' \<noteq> Some (AttrString [])
   \<and> attrsToQuery [(''lang'', AttrString ''scss'')] (Some ''css'') False = ''&lang.scss''
   \<and> attrsToQuery [(''lang'', AttrString ''scss'')] (Some ''css'') True = ''&lang.css''
   \<and> attrsToQuery [(''scoped'', AttrTrue)] (Some ''css'') False = ''&scoped=true&lang.css''
   \<and> attrsToQuery [(''scoped'', AttrTrue)] None False = ''&scoped=true''"
  using lang_suffix_rule [of "[(''lang'', AttrString ''scss'')]" "Some ''css''" False]
    lang_suffix_rule [of "[(''lang'', AttrString ''scss'')]" "Some ''css''" True]
    lang_suffix_rule [of "[(''scoped'', AttrTrue)]" "Some ''css''" False]
    lang_suffix_rule [of "[(''scoped'', AttrTrue)]" None False]
  by (simp add: langSuffix_spec_def langChoice_def encoder_defs)

text \<open>
  C4 as the spec words it fails where truthiness and presence differ: a map that declares
  \<open>lang\<close> with the empty string and no fallback, and an empty fallback with no \<open>lang\<close>,
  get no suffix, where the spec's rule appends \<open>&lang.\<close>.
\<close>

theorem lang_suffix_counterexample:
  "attrsToQuery [(''lang'', AttrString [])] None False = []
   \<and> langSuffix_spec [(''lang'', AttrString [])] None False = ''&lang.''
   \<and> attrsToQuery [] (Some []) False = []
   \<and> langSuffix_spec [] (Some []) False = ''&lang.''"
  by (simp add: langSuffix_spec_def langChoice_def encoder_defs)

subsection \<open>Facts about the escape function and the attribute loop\<close>

lemma noEscape_special [simp]:
  "\<not> noEscape (CHR ''&'')" "\<not> noEscape (CHR ''='')" "\<not> noEscape (CHR ''%'')"
  "\<not> noEscape (CHR ''+'')" "\<not> noEscape (CHR ''?'')"
  by (simp_all add: noEscape_def)

lemma noEscape_hex_digit: "d < 16 \<Longrightarrow> noEscape (hex_digit d)"
proof -
  assume "d < 16"
  then have "hex_digit d \<in> set ''0123456789ABCDEF''"
    unfolding hex_digit_def by (intro nth_mem) simp
  moreover have "\<forall>x \<in> set ''0123456789ABCDEF''. noEscape x"
    by (simp add: noEscape_def)
  ultimately show ?thesis by blast
qed

lemma of_char_div_16: "(of_char (c :: char) :: nat) div 16 < 16"
  by (rule less_mult_imp_div_less) simp

lemma escape_char_set:
  assumes "x \<in> set (escape_char c)"
  shows "noEscape x \<or> x = CHR ''%''"
proof (cases "noEscape c")
  case True
  with assms show ?thesis by (simp add: escape_char_def)
next
  case False
  have "noEscape (hex_digit (of_char c div 16))"
    by (rule noEscape_hex_digit) (rule of_char_div_16)
  moreover have "noEscape (hex_digit (of_char c mod 16))"
    by (rule noEscape_hex_digit) simp
  ultimately show ?thesis
    using assms False by (auto simp add: escape_char_def)
qed

lemma qs_escape_set: "x \<in> set (qs_escape s) \<Longrightarrow> noEscape x \<or> x = CHR ''%''"
  by (auto simp add: qs_escape_def dest: escape_char_set)

lemma qs_escape_no_amp [simp]: "CHR ''&'' \<notin> set (qs_escape s)"
  using qs_escape_set [of "CHR ''&''" s] by auto

lemma qs_escape_no_eq [simp]: "CHR ''='' \<notin> set (qs_escape s)"
  using qs_escape_set [of "CHR ''=''" s] by auto

lemma qs_escape_Nil [simp]: "qs_escape [] = []"
  by (simp add: qs_escape_def)

lemma qs_escape_Cons: "qs_escape (c # s) = escape_char c @ qs_escape s"
  by (simp add: qs_escape_def)

lemma escape_char_nonempty [simp]: "escape_char c \<noteq> []"
  by (simp add: escape_char_def)

lemma qs_escape_eq_Nil [simp]: "qs_escape s = [] \<longleftrightarrow> s = []"
  by (cases s) (simp_all add: qs_escape_Cons)

lemma attrs_loop_concat:
  "attrs_loop m q = q @ concat (map attrParam (withoutReserved m))"
  by (induction m arbitrary: q) (auto simp add: withoutReserved_def)


lemma attrParam_shape:
  "\<exists>body. attrParam a = CHR ''&'' # body \<and> CHR ''&'' \<notin> set body"
  by (cases a) simp

lemma concat_attrParam_starts:
  "concat (map attrParam xs) = [] \<or> hd (concat (map attrParam xs)) = CHR ''&''"
  by (cases xs) (auto simp add: neq_Nil_conv)

lemma attrsToQuery_parts:
  "attrsToQuery m langFallback forceLangFallback
     = concat (map attrParam (withoutReserved m))
       @ (if truthy_string_opt langFallback \<or> truthy_attr_opt (map_of m ''lang'')
          then ''&lang.'' @ langChoice m langFallback forceLangFallback
          else [])"
  by (cases "map_of m ''lang''")
    (simp_all add: attrsToQuery_def langChoice_def attrs_loop_concat lang_declared_iff
      interpolate_attr_opt_def Let_def)

lemma attrsToQuery_starts:
  "attrsToQuery m langFallback forceLangFallback = []
   \<or> hd (attrsToQuery m langFallback forceLangFallback) = CHR ''&''"
proof (cases "concat (map attrParam (withoutReserved m)) = []")
  case True
  then show ?thesis by (simp add: attrsToQuery_parts del: concat_eq_Nil_conv)
next
  case False
  with concat_attrParam_starts [of "withoutReserved m"]
  have "hd (concat (map attrParam (withoutReserved m))) = CHR ''&''" by blast
  with False show ?thesis by (simp add: attrsToQuery_parts del: concat_eq_Nil_conv)
qed

lemma attrsToQuery_fallback_nonempty:
  "truthy_string_opt langFallback \<Longrightarrow> attrsToQuery m langFallback forceLangFallback \<noteq> []"
  by (simp add: attrsToQuery_parts)

subsection \<open>Splitting at a separator\<close>

lemma split_on_nonempty [simp]: "split_on c s \<noteq> []"
  by (induction s) (auto split: list.splits)

lemma split_on_append: "split_on c (a @ c # b) = split_on c a @ split_on c b"
proof (induction a)
  case Nil
  then show ?case by simp
next
  case (Cons x a)
  obtain y ys where s: "split_on c a = y # ys"
    by (cases "split_on c a") simp_all
  with Cons show ?case by simp
qed

lemma split_on_no_sep: "c \<notin> set a \<Longrightarrow> split_on c a = [a]"
  by (induction a) auto

lemma carriesId_shape:
  assumes "CHR ''?'' \<in> set p" and "CHR ''&'' \<notin> set token"
    and "rest = [] \<or> hd rest = CHR ''&''"
  shows "carriesId (p @ ''&id='' @ token @ rest) token"
proof -
  from assms(1) have ne: "dropWhile (\<lambda>c. c \<noteq> CHR ''?'') p \<noteq> []"
    by (auto simp add: dropWhile_eq_Nil_conv)
  then obtain y z where yz: "dropWhile (\<lambda>c. c \<noteq> CHR ''?'') p = y # z"
    by (cases "dropWhile (\<lambda>c. c \<noteq> CHR ''?'') p") simp_all
  from hd_dropWhile [OF ne] yz have "y = CHR ''?''" by simp
  with yz have z: "dropWhile (\<lambda>c. c \<noteq> CHR ''?'') p = CHR ''?'' # z" by simp
  from assms(1) have "dropWhile (\<lambda>c. c \<noteq> CHR ''?'') (p @ ''&id='' @ token @ rest)
        = dropWhile (\<lambda>c. c \<noteq> CHR ''?'') p @ ''&id='' @ token @ rest"
    by (intro dropWhile_append1) auto
  with z have q: "queryParams (p @ ''&id='' @ token @ rest)
        = split_on (CHR ''&'') z @ split_on (CHR ''&'') (''id='' @ token @ rest)"
    using split_on_append [of "CHR ''&''" z "''id='' @ token @ rest"]
    by (simp add: queryParams_def)
  from assms(2) have one: "split_on (CHR ''&'') (''id='' @ token) = [''id='' @ token]"
    by (intro split_on_no_sep) simp
  have "''id='' @ token \<in> set (split_on (CHR ''&'') (''id='' @ token @ rest))"
  proof (cases rest)
    case Nil
    with one show ?thesis by simp
  next
    case (Cons r rs)
    with assms(3) have "rest = CHR ''&'' # rs" by simp
    then have "split_on (CHR ''&'') (''id='' @ token @ rest)
                 = split_on (CHR ''&'') (''id='' @ token) @ split_on (CHR ''&'') rs"
      using split_on_append [of "CHR ''&''" "''id='' @ token" rs] by simp
    with one show ?thesis by simp
  qed
  with q show ?thesis by (simp add: carriesId_def)
qed

subsection \<open>Removing the module parameter\<close>

lemma escape_char_noEscape: "noEscape c \<Longrightarrow> escape_char c = [c]"
  by (simp add: escape_char_def)

lemma escape_char_escaped: "\<not> noEscape c \<Longrightarrow> \<exists>r. escape_char c = CHR ''%'' # r"
  by (simp add: escape_char_def)

text \<open>
  A word of characters that are not escaped is not a prefix of an escaped string that is
  followed by nothing or by a character that would be escaped, unless it is a prefix of
  the string itself.
\<close>

lemma not_prefix_escaped:
  assumes "\<forall>c \<in> set w. noEscape c" and "\<not> prefix w k"
    and "T = [] \<or> \<not> noEscape (hd T)"
  shows "\<not> prefix w (qs_escape k @ T)"
  using assms
proof (induction k arbitrary: w)
  case Nil
  then have "w \<noteq> []" by auto
  then obtain x w' where w: "w = x # w'" by (cases w) auto
  with Nil show ?case by (cases T) auto
next
  case (Cons c k)
  then have "w \<noteq> []" by auto
  then obtain x w' where w: "w = x # w'" by (cases w) auto
  show ?case
  proof (cases "noEscape c")
    case True
    show ?thesis
    proof (cases "x = c")
      case xc: True
      with Cons.prems w have "\<not> prefix w' k" and "\<forall>c \<in> set w'. noEscape c" by auto
      with Cons.IH [of w'] Cons.prems(3) have "\<not> prefix w' (qs_escape k @ T)" by blast
      with w True show ?thesis by (simp add: qs_escape_Cons escape_char_noEscape)
    next
      case False
      with w True show ?thesis by (simp add: qs_escape_Cons escape_char_noEscape)
    qed
  next
    case False
    then obtain r where r: "escape_char c = CHR ''%'' # r"
      using escape_char_escaped by blast
    from Cons.prems(1) w have "noEscape x" by simp
    then have "x \<noteq> CHR ''%''" by auto
    with w r show ?thesis by (simp add: qs_escape_Cons)
  qed
qed

lemma removeModuleParam_skip:
  "CHR ''&'' \<notin> set body \<Longrightarrow> removeModuleParam (body @ S) = body @ removeModuleParam S"
  by (induction body) auto

lemma removeModuleParam_amp:
  "\<not> prefix ''module'' S \<Longrightarrow> removeModuleParam (CHR ''&'' # S) = CHR ''&'' # removeModuleParam S"
  by simp

lemma module_word: "\<forall>c \<in> set ''module''. noEscape c"
  by (simp add: noEscape_def)

lemma true_word: "\<forall>c \<in> set ''true''. noEscape c"
  by (simp add: noEscape_def)

lemma removeModuleParam_attrParam:
  assumes "\<not> prefix ''module'' (fst a)" and "S = [] \<or> hd S = CHR ''&''"
  shows "removeModuleParam (attrParam a @ S) = attrParam a @ removeModuleParam S"
proof -
  obtain k v where a: "a = (k, v)" by (cases a)
  let ?val = "if truthy_attr v then ''='' @ qs_escape (String_attr v) else []"
  have T: "?val @ S = [] \<or> \<not> noEscape (hd (?val @ S))"
    using assms(2) by auto
  from assms(1) a have "\<not> prefix ''module'' k" by simp
  with not_prefix_escaped [OF module_word _ T]
  have np: "\<not> prefix ''module'' (qs_escape k @ ?val @ S)" by blast
  have amp: "CHR ''&'' \<notin> set (qs_escape k @ ?val)" by simp
  have "removeModuleParam (attrParam a @ S)
          = removeModuleParam (CHR ''&'' # (qs_escape k @ ?val @ S))"
    by (simp add: a)
  also have "\<dots> = CHR ''&'' # removeModuleParam ((qs_escape k @ ?val) @ S)"
    using removeModuleParam_amp [OF np] by simp
  also have "\<dots> = CHR ''&'' # (qs_escape k @ ?val) @ removeModuleParam S"
    using removeModuleParam_skip [OF amp] by simp
  also have "\<dots> = attrParam a @ removeModuleParam S"
    by (simp add: a)
  finally show ?thesis .
qed

lemma removeModuleParam_params:
  assumes "\<forall>a \<in> set xs. \<not> prefix ''module'' (fst a)" and "S = [] \<or> hd S = CHR ''&''"
  shows "removeModuleParam (concat (map attrParam xs) @ S)
           = concat (map attrParam xs) @ removeModuleParam S"
  using assms
proof (induction xs)
  case Nil
  then show ?case by simp
next
  case (Cons a xs)
  have st: "concat (map attrParam xs) @ S = [] \<or> hd (concat (map attrParam xs) @ S) = CHR ''&''"
    using concat_attrParam_starts [of xs] Cons.prems(2) by (auto simp add: hd_append)
  from Cons.prems(1) have "\<not> prefix ''module'' (fst a)" by simp
  from removeModuleParam_attrParam [OF this st] Cons show ?case by simp
qed

lemma qs_escape_words [simp]:
  "qs_escape ''module'' = ''module''" "qs_escape ''true'' = ''true''"
  by (simp_all add: qs_escape_def escape_char_def noEscape_def)

lemma dropModuleValue_rest:
  "R = [] \<or> hd R = CHR ''&'' \<Longrightarrow> dropModuleValue R = R"
  by (cases R) (auto simp add: dropModuleValue_def)

lemma dropModuleValue_true:
  "dropModuleValue (''=true'' @ R) = R"
  by (simp add: dropModuleValue_def)

lemma dropModuleValue_string:
  assumes "R = [] \<or> hd R = CHR ''&''" and "s \<noteq> []" and "\<not> prefix ''true'' s"
  shows "dropModuleValue (''='' @ qs_escape s @ R) = R"
proof -
  have T: "R = [] \<or> \<not> noEscape (hd R)" using assms(1) by auto
  have np: "\<not> prefix ''true'' (qs_escape s @ R)"
    by (rule not_prefix_escaped [OF true_word assms(3) T])
  from assms(2) have ne: "qs_escape s \<noteq> []" by simp
  have "hd (qs_escape s) \<noteq> CHR ''&''"
  proof
    assume e: "hd (qs_escape s) = CHR ''&''"
    from hd_in_set [OF ne] have "CHR ''&'' \<in> set (qs_escape s)" unfolding e .
    then show False by simp
  qed
  with ne have h: "hd (qs_escape s @ R) \<noteq> CHR ''&''" by simp
  have "dropWhile (\<lambda>x. x \<noteq> CHR ''&'') (qs_escape s @ R) = dropWhile (\<lambda>x. x \<noteq> CHR ''&'') R"
    by (rule dropWhile_append2) auto
  also have "\<dots> = R" using assms(1) by (cases R) auto
  finally have d: "dropWhile (\<lambda>x. x \<noteq> CHR ''&'') (qs_escape s @ R) = R" .
  from np have "\<not> prefix ''=true'' (CHR ''='' # qs_escape s @ R)" by simp
  then have "dropModuleValue (CHR ''='' # qs_escape s @ R)
               = dropWhile (\<lambda>x. x \<noteq> CHR ''&'') (qs_escape s @ R)"
    unfolding dropModuleValue_def using ne h by simp
  with d show ?thesis by simp
qed

lemma dropModuleValue_param:
  assumes "R = [] \<or> hd R = CHR ''&''"
    and "\<forall>s. v = AttrString s \<longrightarrow> s = ''true'' \<or> \<not> prefix ''true'' s"
  shows "dropModuleValue
           ((if truthy_attr v then ''='' @ qs_escape (String_attr v) else []) @ R) = R"
proof (cases v)
  case AttrTrue
  then show ?thesis using dropModuleValue_true [of R] by simp
next
  case (AttrString s)
  show ?thesis
  proof (cases "s = []")
    case True
    with AttrString assms(1) show ?thesis by (simp add: dropModuleValue_rest)
  next
    case False
    show ?thesis
    proof (cases "s = ''true''")
      case True
      with AttrString show ?thesis using dropModuleValue_true [of R] by simp
    next
      case nt: False
      with assms(2) AttrString have "\<not> prefix ''true'' s" by blast
      from dropModuleValue_string [OF assms(1) False this] AttrString False
      show ?thesis by simp
    qed
  qed
qed

lemma withoutReserved_append [simp]:
  "withoutReserved (A @ B) = withoutReserved A @ withoutReserved B"
  by (simp add: withoutReserved_def)

lemma withoutReserved_module [simp]:
  "withoutReserved ((''module'', v) # B) = (''module'', v) # withoutReserved B"
  by (simp add: withoutReserved_def ignoreList_def)

lemma map_of_lang_without_module:
  "map_of (A @ [(''module'', v)] @ B) ''lang'' = map_of (A @ B) ''lang''"
  by (simp add: map_add_def split: option.splits)

lemma langChoice_without_module:
  "langChoice (A @ [(''module'', v)] @ B) fb force = langChoice (A @ B) fb force"
  unfolding langChoice_def map_of_lang_without_module ..

text \<open>
  When \<open>module\<close> is the first attribute whose name begins with \<open>module\<close>, and its value
  is not a string that begins with \<open>true\<close> other than \<open>true\<close> itself, the replacement
  removes exactly the module parameter from the encoded attributes.
\<close>

lemma removeModuleParam_attrsToQuery:
  assumes "\<forall>a \<in> set A. \<not> prefix ''module'' (fst a)"
    and "\<forall>s. v = AttrString s \<longrightarrow> s = ''true'' \<or> \<not> prefix ''true'' s"
  shows "removeModuleParam (attrsToQuery (A @ [(''module'', v)] @ B) fb force)
           = attrsToQuery (A @ B) fb force"
proof -
  let ?suffix = "if truthy_string_opt fb \<or> truthy_attr_opt (map_of (A @ B) ''lang'')
                 then ''&lang.'' @ langChoice (A @ B) fb force else []"
  let ?R = "concat (map attrParam (withoutReserved B)) @ ?suffix"
  let ?val = "if truthy_attr v then ''='' @ qs_escape (String_attr v) else []"
  have R: "?R = [] \<or> hd ?R = CHR ''&''"
    using concat_attrParam_starts [of "withoutReserved B"] by (auto simp add: hd_append)
  have S: "attrParam (''module'', v) @ ?R = [] \<or> hd (attrParam (''module'', v) @ ?R) = CHR ''&''"
    by simp
  have A: "\<forall>a \<in> set (withoutReserved A). \<not> prefix ''module'' (fst a)"
    using assms(1) by (simp add: withoutReserved_def)
  have "attrsToQuery (A @ [(''module'', v)] @ B) fb force
          = concat (map attrParam (withoutReserved A)) @ (attrParam (''module'', v) @ ?R)"
    unfolding attrsToQuery_parts map_of_lang_without_module langChoice_without_module
    by simp
  then have "removeModuleParam (attrsToQuery (A @ [(''module'', v)] @ B) fb force)
          = concat (map attrParam (withoutReserved A))
            @ removeModuleParam (attrParam (''module'', v) @ ?R)"
    using removeModuleParam_params [OF A S] by simp
  also have "removeModuleParam (attrParam (''module'', v) @ ?R) = dropModuleValue (?val @ ?R)"
    by simp
  also have "\<dots> = ?R"
    by (rule dropModuleValue_param [OF R assms(2)])
  finally show ?thesis
    unfolding attrsToQuery_parts [of "A @ B"] by simp
qed

subsection \<open>The style loop\<close>

lemma style_step_text:
  "style_step X resourcePath ident preprocess style i (acc, has)
     = (acc @ styleText X resourcePath ident preprocess has style i,
        has \<or> isModuleStyle style)"
  by (simp add: style_step_def styleText_def isModuleStyle_def genCSSModulesCode_def Let_def)

lemma styles_loop_concat:
  "styles_loop X resourcePath ident preprocess ss i (acc, has)
     = (acc @ concat (map (\<lambda>j. styleText X resourcePath ident preprocess
                                    (has \<or> list_ex isModuleStyle (take j ss)) (ss ! j) (i + j))
                         [0..<length ss]),
        has \<or> list_ex isModuleStyle ss)"
proof (induction ss arbitrary: i acc has)
  case Nil
  then show ?case by simp
next
  case (Cons s ss)
  have "[0..<length (s # ss)] = 0 # map Suc [0..<length ss]"
    unfolding map_Suc_upt by (simp add: upt_conv_Cons del: upt_Suc)
  then show ?case
    by (simp add: style_step_text Cons.IH comp_def disj_assoc del: upt_Suc)
qed

lemma styleRequestWithoutModule_eq:
  assumes "attrs style = A @ [(''module'', v)] @ B"
    and "\<forall>a \<in> set A. \<not> prefix ''module'' (fst a)"
    and "\<forall>s. v = AttrString s \<longrightarrow> s = ''true'' \<or> \<not> prefix ''true'' s"
  shows "styleRequestWithoutModule style i resourcePath ident preprocess
           = styleRequest (style\<lparr>attrs := A @ B\<rparr>) i resourcePath ident preprocess"
  using removeModuleParam_attrsToQuery [OF assms(2,3), of B "Some ''css''" preprocess] assms(1)
  by (simp add: styleRequestWithoutModule_def styleRequest_def styleQuery_def)

lemma carriesId_templateAddress:
  assumes "CHR ''&'' \<notin> set ident"
  shows "carriesId (templateAddress t resourcePath ident) ident"
proof -
  let ?p = "or_else (src t) resourcePath @ ''?vue&type=template''"
  let ?rest = "(if truthy_string_opt (src t) then ''&src'' else [])
               @ attrsToQuery (attrs t) (Some ''js'') True"
  have r: "?rest = [] \<or> hd ?rest = CHR ''&''"
    using attrsToQuery_starts [of "attrs t" "Some ''js''" True] by auto
  have "carriesId (?p @ ''&id='' @ ident @ ?rest) ident"
    by (rule carriesId_shape [OF _ assms r]) simp
  then show ?thesis by (simp add: templateAddress_def Let_def)
qed

lemma carriesId_styleRequest:
  assumes "CHR ''&'' \<notin> set ident"
  shows "carriesId (styleRequest style i resourcePath ident preprocess @ ext) ident"
proof -
  let ?p = "or_else (src style) resourcePath @ ''?vue&type=style&index='' @ string_of_nat i
            @ (if truthy_string_opt (src style) then ''&src'' else [])"
  let ?q = "attrsToQuery (attrs style) (Some ''css'') preprocess"
  have "?q \<noteq> []"
    by (rule attrsToQuery_fallback_nonempty) (simp add: truthy_string_opt_def)
  with attrsToQuery_starts [of "attrs style" "Some ''css''" preprocess]
  have r: "?q @ ext = [] \<or> hd (?q @ ext) = CHR ''&''" by simp
  have "carriesId (?p @ ''&id='' @ ident @ (?q @ ext)) ident"
    by (rule carriesId_shape [OF _ assms r]) simp
  then show ?thesis by (simp add: styleRequest_def styleQuery_def Let_def)
qed

subsection \<open>CSS module styles\<close>

text \<open>
  C2, as the code has it. The style text is the concatenation over the style sections
  in parse order. A section whose module flag is truthy adds two imports and one
  assignment: the import of the side-effect address, the import of \<open>style<i>\<close> from the
  export-map address, which is the section's style address followed by \<open>.js\<close>, and
  \<open>cssModules["<name>"] = style<i>\<close>, where the name is the section's string module
  name, or \<open>$style\<close> for a boolean flag; \<open>const cssModules = script.__cssModules = {}\<close>
  is written once, before the first such section. The side-effect address is the style
  address with the first \<open>&module\<close> match removed: when \<open>module\<close> is the first attribute
  whose name begins with \<open>module\<close> and its value is not a string that begins with
  \<open>true\<close> other than \<open>true\<close> itself, it is the address of the same section without
  the module attribute (same path, same remaining query).
\<close>

theorem css_module_addresses:
  "genStyleCode X d resourcePath ident preprocessOpt
     = concat (map (\<lambda>i. styleText X resourcePath ident (truthy_bool_opt preprocessOpt)
                            (list_ex isModuleStyle (take i (styles d))) (styles d ! i) i)
                 [0..<length (styles d)])
   \<and> (truthy_module (module style) \<longrightarrow>
        styleText X resourcePath ident preprocess earlier style i
          = (if earlier then []
             else [CHR 0x0A] @ ''const cssModules = script.__cssModules = {}'')
            @ [CHR 0x0A] @ ''import ''
            @ JSON_stringify X (styleRequestWithoutModule style i resourcePath ident preprocess)
            @ [CHR 0x0A] @ ''import style'' @ string_of_nat i @ '' from ''
            @ JSON_stringify X (styleRequest style i resourcePath ident preprocess @ ''.js'')
            @ [CHR 0x0A] @ ''cssModules['' @ [CHR 0x22]
            @ (case module style of ModuleName name \<Rightarrow> name | _ \<Rightarrow> ''$style'')
            @ [CHR 0x22] @ ''] = style'' @ string_of_nat i)
   \<and> (attrs style = A @ [(''module'', v)] @ B
        \<and> (\<forall>a \<in> set A. \<not> prefix ''module'' (fst a))
        \<and> (\<forall>s. v = AttrString s \<longrightarrow> s = ''true'' \<or> \<not> prefix ''true'' s)
        \<longrightarrow> styleRequestWithoutModule style i resourcePath ident preprocess
              = styleRequest (style\<lparr>attrs := A @ B\<rparr>) i resourcePath ident preprocess)"
proof (intro conjI impI)
  show "genStyleCode X d resourcePath ident preprocessOpt
     = concat (map (\<lambda>i. styleText X resourcePath ident (truthy_bool_opt preprocessOpt)
                            (list_ex isModuleStyle (take i (styles d))) (styles d ! i) i)
                 [0..<length (styles d)])"
    by (simp add: genStyleCode_def styles_loop_concat)
next
  assume "truthy_module (module style)"
  then show "styleText X resourcePath ident preprocess earlier style i
          = (if earlier then []
             else [CHR 0x0A] @ ''const cssModules = script.__cssModules = {}'')
            @ [CHR 0x0A] @ ''import ''
            @ JSON_stringify X (styleRequestWithoutModule style i resourcePath ident preprocess)
            @ [CHR 0x0A] @ ''import style'' @ string_of_nat i @ '' from ''
            @ JSON_stringify X (styleRequest style i resourcePath ident preprocess @ ''.js'')
            @ [CHR 0x0A] @ ''cssModules['' @ [CHR 0x22]
            @ (case module style of ModuleName name \<Rightarrow> name | _ \<Rightarrow> ''$style'')
            @ [CHR 0x22] @ ''] = style'' @ string_of_nat i"
    by (simp add: styleText_def isModuleStyle_def moduleVarName_def)
next
  assume "attrs style = A @ [(''module'', v)] @ B
        \<and> (\<forall>a \<in> set A. \<not> prefix ''module'' (fst a))
        \<and> (\<forall>s. v = AttrString s \<longrightarrow> s = ''true'' \<or> \<not> prefix ''true'' s)"
  then show "styleRequestWithoutModule style i resourcePath ident preprocess
              = styleRequest (style\<lparr>attrs := A @ B\<rparr>) i resourcePath ident preprocess"
    using styleRequestWithoutModule_eq by blast
qed

theorem css_module_addresses_witness:
  "genStyleCode (exampleExternals exampleDescriptor []) exampleDescriptor
       ''/proj/src/App.vue'' ''7ba5bd90'' None
     = [CHR 0x0A] @ ''import '' @ [CHR 0x22]
         @ ''/proj/src/App.vue?vue&type=style&index=0&id=7ba5bd90&lang.css'' @ [CHR 0x22]
       @ [CHR 0x0A] @ ''const cssModules = script.__cssModules = {}''
       @ [CHR 0x0A] @ ''import '' @ [CHR 0x22]
         @ ''/proj/src/App.vue?vue&type=style&index=1&id=7ba5bd90&lang.css'' @ [CHR 0x22]
       @ [CHR 0x0A] @ ''import style1 from '' @ [CHR 0x22]
         @ ''/proj/src/App.vue?vue&type=style&index=1&id=7ba5bd90&module=classes&lang.css.js''
         @ [CHR 0x22]
       @ [CHR 0x0A] @ ''cssModules['' @ [CHR 0x22] @ ''classes'' @ [CHR 0x22] @ ''] = style1''
   \<and> styleRequestWithoutModule (styles exampleDescriptor ! 1) 1 ''/proj/src/App.vue''
         ''7ba5bd90'' False
       = ''/proj/src/App.vue?vue&type=style&index=1&id=7ba5bd90&lang.css''"
proof -
  let ?X = "exampleExternals exampleDescriptor []"
  let ?s = "styles exampleDescriptor ! 1"
  note t = css_module_addresses [of ?X exampleDescriptor "''/proj/src/App.vue''" "''7ba5bd90''"
      None ?s False False 1 "[]" "AttrString ''classes''" "[]"]
  show ?thesis
    using t
    by (simp add: genStyleCode_def style_step_def genCSSModulesCode_def styleText_def
        styleRequest_def styleRequestWithoutModule_def styleQuery_def isModuleStyle_def
        moduleVarName_def dropModuleValue_def truthy_bool_opt_def upt_rec
        example_defs encoder_defs)
qed


text \<open>
  C2 as the spec words it fails on the assignment text: the output for the document of the
  spec's section 8 assigns through the alias \<open>cssModules\<close>; the text
  \<open>script.__cssModules["classes"] = style1\<close> does not occur in it.
\<close>

theorem css_module_assignment_counterexample:
  "(case fst (transformSFCEntry (exampleExternals exampleDescriptor []) ''text''
                ''/proj/src/App.vue'' exampleOptions ''/proj'' False False (\<lambda>t. False)
                emptyState) of
      Returned (Some r) \<Rightarrow>
        \<not> sublist (''script.__cssModules['' @ [CHR 0x22] @ ''classes'' @ [CHR 0x22]
                      @ ''] = style1'') (out_code r)
        \<and> sublist (''cssModules['' @ [CHR 0x22] @ ''classes'' @ [CHR 0x22] @ ''] = style1'')
              (out_code r)
    | _ \<Rightarrow> False)"
  by (simp add: transformSFCEntry_def outputLines_def genScriptCode_def compiledDescriptor_def
      chosenScript_def scriptAddress_def genStyleCode_def style_step_def
      genCSSModulesCode_def styleRequest_def styleRequestWithoutModule_def styleQuery_def
      moduleVarName_def dropModuleValue_def getCustomBlock_def
      templateImport_def renderReplace_def hasTemplateImport_def genTemplateCode_def
      templateAddress_def renderFnName_def hasScoped_def
      shortFilePath_def slashes_def scopeId_def scopeIdInput_def setDescriptor_def
      truthy_bool_opt_def sublist_Cons_right example_defs encoder_defs)

text \<open>
  The replacement has no word boundary after \<open>module\<close>. An earlier attribute whose
  name begins with \<open>module\<close>, or a module name that begins with \<open>true\<close>, makes it
  cut the wrong text: the side-effect address then keeps the module parameter or a
  piece of the name.
\<close>

lemma removeModuleParam_no_boundary:
  "removeModuleParam
     (attrsToQuery [(''module-kind'', AttrString ''a''), (''module'', AttrTrue)]
        (Some ''css'') False)
     = ''-kind=a&module=true&lang.css''
   \<and> removeModuleParam (attrsToQuery [(''module'', AttrString ''trueish'')] (Some ''css'') False)
     = ''ish&lang.css''"
  by (simp add: dropModuleValue_def encoder_defs)

subsection \<open>Parsing an encoded attribute map back\<close>

lemma hex_digit_values:
  "\<forall>d \<in> set [0..<16]. isHex (hex_digit d) \<and> hexval (hex_digit d) = d"
  by (simp add: upt_rec hex_digit_def isHex_def hexval_def)

lemma hex_digit_inverse:
  assumes "d < 16"
  shows "isHex (hex_digit d)" and "hexval (hex_digit d) = d"
  using assms hex_digit_values by simp_all

lemma qs_unescape_plain:
  "c \<noteq> CHR ''%'' \<Longrightarrow>
   qs_unescape (c # cs) = (if c = CHR ''+'' then CHR '' '' else c) # qs_unescape cs"
proof (cases cs)
  case Nil
  then show ?thesis by simp
next
  case (Cons h1 t)
  assume "c \<noteq> CHR ''%''"
  with Cons show ?thesis by (cases t) simp_all
qed

lemma qs_unescape_hex:
  "isHex h1 \<Longrightarrow> isHex h2 \<Longrightarrow>
   qs_unescape (CHR ''%'' # h1 # h2 # rest) = char_of (16 * hexval h1 + hexval h2) # qs_unescape rest"
  by simp

lemma qs_unescape_escape_char:
  "qs_unescape (escape_char c @ rest) = c # qs_unescape rest"
proof (cases "noEscape c")
  case True
  then have "c \<noteq> CHR ''%''" and "c \<noteq> CHR ''+''" by auto
  with True show ?thesis by (simp add: escape_char_noEscape qs_unescape_plain)
next
  case False
  have lo: "(of_char c :: nat) mod 16 < 16" by simp
  have "char_of (16 * (of_char c div 16) + of_char c mod 16 :: nat) = c"
    by simp
  with False show ?thesis
    using hex_digit_inverse [OF of_char_div_16 [of c]] hex_digit_inverse [OF lo]
    by (simp add: escape_char_def)
qed

lemma qs_unescape_escape [simp]: "qs_unescape (qs_escape s) = s"
proof (induction s)
  case Nil
  then show ?case by simp
next
  case (Cons c s)
  then show ?case
    using qs_unescape_escape_char [of c "qs_escape s"] by (simp add: qs_escape_Cons)
qed

lemma parsePair_attrParam:
  "parsePair (tl (attrParam (k, v))) = (k, String_attr v)"
proof -
  have k: "\<And>x. x \<in> set (qs_escape k) \<Longrightarrow> x \<noteq> CHR ''=''"
    using qs_escape_no_eq [of k] by auto
  show ?thesis
  proof (cases "truthy_attr v")
    case True
    have tw: "takeWhile (\<lambda>c. c \<noteq> CHR ''='') (qs_escape k @ CHR ''='' # qs_escape (String_attr v))
            = qs_escape k"
      using takeWhile_append2 [of "qs_escape k" "\<lambda>c. c \<noteq> CHR ''=''"] k by simp
    have dw: "dropWhile (\<lambda>c. c \<noteq> CHR ''='') (qs_escape k @ CHR ''='' # qs_escape (String_attr v))
            = CHR ''='' # qs_escape (String_attr v)"
      using dropWhile_append2 [of "qs_escape k" "\<lambda>c. c \<noteq> CHR ''=''"] k by simp
    show ?thesis using True by (simp add: parsePair_def tw dw)
  next
    case False
    then have v: "String_attr v = []" by (cases v) simp_all
    have tw: "takeWhile (\<lambda>c. c \<noteq> CHR ''='') (qs_escape k) = qs_escape k"
      using k by (simp add: takeWhile_eq_all_conv)
    have dw: "dropWhile (\<lambda>c. c \<noteq> CHR ''='') (qs_escape k) = []"
      using k by simp
    show ?thesis using False v by (simp add: parsePair_def tw dw)
  qed
qed

lemma split_on_params:
  "CHR ''&'' \<notin> set body \<Longrightarrow>
   split_on (CHR ''&'') (body @ concat (map attrParam xs))
     = body # map (\<lambda>a. tl (attrParam a)) xs"
proof (induction xs arbitrary: body)
  case Nil
  then show ?case by (simp add: split_on_no_sep)
next
  case (Cons a xs)
  obtain b where b: "attrParam a = CHR ''&'' # b" and nb: "CHR ''&'' \<notin> set b"
    using attrParam_shape by blast
  have "split_on (CHR ''&'') (body @ CHR ''&'' # (b @ concat (map attrParam xs)))
          = split_on (CHR ''&'') body @ split_on (CHR ''&'') (b @ concat (map attrParam xs))"
    by (rule split_on_append)
  with Cons.prems Cons.IH [OF nb] b show ?case
    by (simp add: split_on_no_sep)
qed

lemma split_on_attrsToQuery:
  assumes "CHR ''&'' \<notin> set (langChoice m fb force)"
  shows "split_on (CHR ''&'') (attrsToQuery m fb force)
           = [] # map (\<lambda>a. tl (attrParam a)) (withoutReserved m)
             @ (if truthy_string_opt fb \<or> truthy_attr_opt (map_of m ''lang'')
                then [''lang.'' @ langChoice m fb force] else [])"
proof (cases "truthy_string_opt fb \<or> truthy_attr_opt (map_of m ''lang'')")
  case False
  then show ?thesis
    using split_on_params [of "[]" "withoutReserved m"] by (simp add: attrsToQuery_parts)
next
  case True
  let ?ps = "concat (map attrParam (withoutReserved m))"
  let ?l = "''lang.'' @ langChoice m fb force"
  have "split_on (CHR ''&'') (?ps @ CHR ''&'' # ?l)
          = split_on (CHR ''&'') ?ps @ split_on (CHR ''&'') ?l"
    by (rule split_on_append)
  moreover have "split_on (CHR ''&'') ?l = [?l]"
    using assms by (intro split_on_no_sep) simp
  moreover have "split_on (CHR ''&'') ?ps = [] # map (\<lambda>a. tl (attrParam a)) (withoutReserved m)"
    using split_on_params [of "[]" "withoutReserved m"] by simp
  ultimately show ?thesis using True by (simp add: attrsToQuery_parts)
qed

lemma qs_pairs_attrsToQuery:
  assumes "[] \<notin> fst ` set m" and "length m < 999"
    and "CHR ''&'' \<notin> set (langChoice m fb force)"
  shows "qs_pairs (attrsToQuery m fb force)
           = stringValues (withoutReserved m)
             @ (if truthy_string_opt fb \<or> truthy_attr_opt (map_of m ''lang'')
                then [parsePair (''lang.'' @ langChoice m fb force)] else [])"
proof -
  let ?xs = "withoutReserved m"
  let ?bodies = "map (\<lambda>a. tl (attrParam a)) ?xs"
  let ?suffix = "if truthy_string_opt fb \<or> truthy_attr_opt (map_of m ''lang'')
                 then [''lang.'' @ langChoice m fb force] else []"
  have k: "[] \<notin> fst ` set ?xs"
    using assms(1) by (auto simp add: withoutReserved_def)
  have "length ?xs \<le> length m"
    unfolding withoutReserved_def by (rule length_filter_le)
  with assms(2) have "length ([] # ?bodies @ ?suffix) \<le> 1000" by simp
  then have t: "take 1000 ([] # ?bodies @ ?suffix) = [] # ?bodies @ ?suffix"
    by (rule take_all)
  have ne: "\<forall>a \<in> set ?xs. tl (attrParam a) \<noteq> []"
    using k by (auto simp add: image_iff)
  then have f: "filter (\<lambda>piece. piece \<noteq> []) ?bodies = ?bodies"
    by (simp add: filter_map comp_def)
  have p: "map parsePair ?bodies = stringValues ?xs"
    unfolding stringValues_def using parsePair_attrParam
    by (induction ?xs) (auto simp del: attrParam.simps)
  show ?thesis
    unfolding qs_pairs_def split_on_attrsToQuery [OF assms(3)] t
    using f p by simp
qed

lemma qs_unescape_unchanged:
  "CHR ''%'' \<notin> set s \<Longrightarrow> CHR ''+'' \<notin> set s \<Longrightarrow> qs_unescape s = s"
proof (induction s)
  case Nil
  then show ?case by simp
next
  case (Cons c s)
  then have c: "c \<noteq> CHR ''%''" and p: "c \<noteq> CHR ''+''" and s: "qs_unescape s = s"
    by auto
  show ?case
    unfolding qs_unescape_plain [OF c] using p s by simp
qed

lemma parsePair_lang:
  assumes "set x \<inter> set ''&=%+'' = {}"
  shows "parsePair (''lang.'' @ x) = (''lang.'' @ x, [])"
proof -
  from assms have e: "\<And>c. c \<in> set (''lang.'' @ x) \<Longrightarrow> c \<noteq> CHR ''=''"
    and p: "CHR ''%'' \<notin> set (''lang.'' @ x)" and q: "CHR ''+'' \<notin> set (''lang.'' @ x)"
    by auto
  have tw: "takeWhile (\<lambda>c. c \<noteq> CHR ''='') (''lang.'' @ x) = ''lang.'' @ x"
    using e by (simp add: takeWhile_eq_all_conv)
  have dw: "dropWhile (\<lambda>c. c \<noteq> CHR ''='') (''lang.'' @ x) = []"
    using e by (simp add: dropWhile_eq_Nil_conv)
  show ?thesis
    unfolding parsePair_def tw dw using qs_unescape_unchanged [OF p q] by simp
qed

lemma fold_addKeyValue_distinct:
  assumes "distinct (map fst ps)" and "\<forall>k \<in> fst ` set ps. obj k = None"
  shows "fold addKeyValue ps obj = obj ++ stringsObject ps"
  using assms
proof (induction ps arbitrary: obj)
  case Nil
  then show ?case by (simp add: stringsObject_def)
next
  case (Cons a ps)
  obtain k v where a: "a = (k, v)" by (cases a)
  with Cons.prems have k: "obj k = None" and nk: "k \<notin> fst ` set ps"
    and d: "distinct (map fst ps)" by auto
  from k a have step: "addKeyValue a obj = obj(k \<mapsto> JsString v)"
    by (simp add: addKeyValue_def)
  have "\<forall>k' \<in> fst ` set ps. (obj(k \<mapsto> JsString v)) k' = None"
    using Cons.prems(2) nk by auto
  with d have ih: "fold addKeyValue ps (obj(k \<mapsto> JsString v))
                     = obj(k \<mapsto> JsString v) ++ stringsObject ps"
    by (rule Cons.IH)
  have "fold addKeyValue (a # ps) obj = fold addKeyValue ps (addKeyValue a obj)"
    by simp
  also have "\<dots> = obj(k \<mapsto> JsString v) ++ stringsObject ps"
    unfolding step by (rule ih)
  also have "\<dots> = (obj ++ stringsObject ps)(k \<mapsto> JsString v)"
  proof (rule map_add_upd_left)
    have "fst ` set (map (\<lambda>(k, s). (k, JsString s)) ps) = fst ` set ps"
      by force
    with nk show "k \<notin> dom (stringsObject ps)"
      by (simp add: stringsObject_def dom_map_of_conv_image_fst)
  qed
  also have "\<dots> = obj ++ stringsObject (a # ps)"
    by (simp add: stringsObject_def a)
  finally show ?case .
qed

lemma qs_parse_distinct:
  "distinct (map fst (qs_pairs s)) \<Longrightarrow> qs_parse s = stringsObject (qs_pairs s)"
  using fold_addKeyValue_distinct [of "qs_pairs s" Map.empty] by (simp add: qs_parse_def)

lemma stringsObject_attrs:
  assumes "AttrTrue \<notin> snd ` set xs"
  shows "stringsObject (stringValues xs) = attrsObject xs"
proof -
  have "map (\<lambda>(k, s). (k, JsString s)) (stringValues xs) = map (\<lambda>(k, v). (k, attrJs v)) xs"
    using assms
  proof (induction xs)
    case Nil
    then show ?case by (simp add: stringValues_def)
  next
    case (Cons a xs)
    obtain k v where a: "a = (k, v)" by (cases a)
    with Cons.prems have "v \<noteq> AttrTrue" by auto
    then have "JsString (String_attr v) = attrJs v" by (cases v) simp_all
    with Cons a show ?case by (simp add: stringValues_def)
  qed
  then show ?thesis by (simp add: stringsObject_def attrsObject_def)
qed

text \<open>
  A repeated key: an attribute named like the language key shares the key of the
  suffix, and the parsed object holds both values in an array.
\<close>

lemma qs_parse_repeated_key:
  "attrsToQuery [(''lang.css'', AttrString ''x'')] (Some ''css'') False = ''&lang.css=x&lang.css''
   \<and> qs_parse (attrsToQuery [(''lang.css'', AttrString ''x'')] (Some ''css'') False) ''lang.css''
       = Some (JsArray [JsString ''x'', JsString []])"
  by (simp add: qs_parse_def qs_pairs_def addKeyValue_def parsePair_def encoder_defs)

text \<open>
  C3, as the code has it. Take an attribute map with unique, non-empty keys and fewer
  than 999 entries, keys and values well-formed UTF-8, and a fallback language and force
  flag for which the chosen language \<open>X\<close> is well-formed and has none of \<open>& = % +\<close> and,
  when the encoder appends the language suffix, no attribute is named \<open>lang.<X>\<close>.
  Parsing the encoded query string back gives an object with the keys of the original
  map that are not reserved, each holding its value as a string: a string value comes
  back as it was, and a boolean-present value comes back as the string \<open>true\<close>. When
  the encoder appended the language suffix, the object has one more key, \<open>lang.<X>\<close>,
  holding the empty string. So the map itself is recovered when no value is boolean and
  no suffix was appended.
\<close>

theorem query_round_trip:
  assumes "distinct (map fst m)" and "[] \<notin> fst ` set m" and "length m < 999"
    and "set (langChoice m langFallback forceLangFallback) \<inter> set ''&=%+'' = {}"
    and "truthy_string_opt langFallback \<or> truthy_attr_opt (map_of m ''lang'')
         \<longrightarrow> ''lang.'' @ langChoice m langFallback forceLangFallback \<notin> fst ` set m"
    and "\<forall>(k, v) \<in> set m. wellFormedUtf8 k \<and> wellFormedUtf8 (String_attr v)"
    and "wellFormedUtf8 (langChoice m langFallback forceLangFallback)"
  shows "qs_parse (attrsToQuery m langFallback forceLangFallback)
           = stringsObject
               (stringValues (withoutReserved m)
                @ (if truthy_string_opt langFallback \<or> truthy_attr_opt (map_of m ''lang'')
                   then [(''lang.'' @ langChoice m langFallback forceLangFallback, [])]
                   else []))
       \<and> (AttrTrue \<notin> snd ` set m
            \<and> \<not> (truthy_string_opt langFallback \<or> truthy_attr_opt (map_of m ''lang''))
            \<longrightarrow> qs_parse (attrsToQuery m langFallback forceLangFallback)
                  = attrsObject (withoutReserved m))"
proof -
  let ?X = "langChoice m langFallback forceLangFallback"
  let ?suffix = "truthy_string_opt langFallback \<or> truthy_attr_opt (map_of m ''lang'')"
  let ?ps = "stringValues (withoutReserved m) @ (if ?suffix then [(''lang.'' @ ?X, [])] else [])"
  from assms(4) have amp: "CHR ''&'' \<notin> set ?X" by auto
  have pairs: "qs_pairs (attrsToQuery m langFallback forceLangFallback) = ?ps"
    using qs_pairs_attrsToQuery [OF assms(2,3) amp] parsePair_lang [OF assms(4)] by simp
  have keys: "map fst (stringValues (withoutReserved m)) = map fst (withoutReserved m)"
    by (simp add: stringValues_def comp_def case_prod_beta)
  have sub: "set (map fst (withoutReserved m)) \<subseteq> fst ` set m"
    by (auto simp add: withoutReserved_def)
  have d1: "distinct (map fst (withoutReserved m))"
    unfolding withoutReserved_def using assms(1) by (simp add: distinct_map_filter)
  have "distinct (map fst ?ps)"
  proof (cases ?suffix)
    case True
    with assms(5) have "''lang.'' @ ?X \<notin> fst ` set m" by blast
    with sub have "''lang.'' @ ?X \<notin> set (map fst (withoutReserved m))" by blast
    with True d1 keys show ?thesis by simp
  next
    case False
    with d1 keys show ?thesis by simp
  qed
  with pairs have p: "qs_parse (attrsToQuery m langFallback forceLangFallback) = stringsObject ?ps"
    using qs_parse_distinct [of "attrsToQuery m langFallback forceLangFallback"] by simp
  have "AttrTrue \<notin> snd ` set (withoutReserved m)" if "AttrTrue \<notin> snd ` set m"
    using that by (auto simp add: withoutReserved_def)
  with p stringsObject_attrs [of "withoutReserved m"] show ?thesis by auto
qed

theorem query_round_trip_witness:
  "distinct (map fst [(''scoped'', AttrTrue), (''id'', AttrString ''x''),
                      (''data-a b'', AttrString ''1&2=3'')])
   \<and> [] \<notin> fst ` set [(''scoped'', AttrTrue), (''id'', AttrString ''x''),
                        (''data-a b'', AttrString ''1&2=3'')]
   \<and> length [(''scoped'', AttrTrue), (''id'', AttrString ''x''),
               (''data-a b'', AttrString ''1&2=3'')] < 999
   \<and> langChoice [(''scoped'', AttrTrue), (''id'', AttrString ''x''),
                  (''data-a b'', AttrString ''1&2=3'')] (Some ''css'') False = ''css''
   \<and> ''lang.css'' \<notin> fst ` set [(''scoped'', AttrTrue), (''id'', AttrString ''x''),
                                  (''data-a b'', AttrString ''1&2=3'')]
   \<and> attrsToQuery [(''scoped'', AttrTrue), (''id'', AttrString ''x''),
                    (''data-a b'', AttrString ''1&2=3'')] (Some ''css'') False
       = ''&scoped=true&data-a%20b=1%262%3D3&lang.css''
   \<and> qs_parse (attrsToQuery [(''scoped'', AttrTrue), (''id'', AttrString ''x''),
                              (''data-a b'', AttrString ''1&2=3'')] (Some ''css'') False)
       = stringsObject [(''scoped'', ''true''), (''data-a b'', ''1&2=3''), (''lang.css'', [])]"
proof -
  let ?m = "[(''scoped'', AttrTrue), (''id'', AttrString ''x''),
             (''data-a b'', AttrString ''1&2=3'')]"
  have d: "distinct (map fst ?m)" by simp
  have n: "[] \<notin> fst ` set ?m" by simp
  have l: "length ?m < 999" by simp
  have x: "langChoice ?m (Some ''css'') False = ''css''"
    by (simp add: langChoice_def interpolate_string_opt_def)
  have g: "set (langChoice ?m (Some ''css'') False) \<inter> set ''&=%+'' = {}"
    unfolding x by simp
  have k: "''lang.css'' \<notin> fst ` set ?m" by simp
  have k': "truthy_string_opt (Some ''css'') \<or> truthy_attr_opt (map_of ?m ''lang'')
            \<longrightarrow> ''lang.'' @ langChoice ?m (Some ''css'') False \<notin> fst ` set ?m"
    unfolding x by simp
  have u: "\<forall>(k, v) \<in> set ?m. wellFormedUtf8 k \<and> wellFormedUtf8 (String_attr v)"
    by (simp add: wellFormedUtf8.simps)
  have u': "wellFormedUtf8 (langChoice ?m (Some ''css'') False)"
    unfolding x by (simp add: wellFormedUtf8.simps)
  have e: "attrsToQuery ?m (Some ''css'') False = ''&scoped=true&data-a%20b=1%262%3D3&lang.css''"
    by (simp add: encoder_defs)
  have v: "stringValues (withoutReserved ?m)
             @ (if truthy_string_opt (Some ''css'') \<or> truthy_attr_opt (map_of ?m ''lang'')
                then [(''lang.'' @ langChoice ?m (Some ''css'') False, [])] else [])
           = [(''scoped'', ''true''), (''data-a b'', ''1&2=3''), (''lang.css'', [])]"
    unfolding x
    by (simp add: stringValues_def withoutReserved_def ignoreList_def truthy_string_opt_def)
  note r = query_round_trip [OF d n l g k' u u', THEN conjunct1]
  show ?thesis
    by (intro conjI) (rule d n l x k e r [unfolded v])+
qed

text \<open>
  C3 as the spec words it fails. A boolean-present value is encoded as \<open>=true\<close>, exactly as
  the string \<open>true\<close> is, and is parsed back as that string; and a map that declares a
  language gets a suffix that parses as one more key, although \<open>lang\<close> is reserved.
\<close>

theorem query_round_trip_counterexample:
  "qs_parse (attrsToQuery [(''scoped'', AttrTrue)] None False) ''scoped''
     = Some (JsString ''true'')
   \<and> attrsObject (withoutReserved [(''scoped'', AttrTrue)]) ''scoped'' = Some JsTrue
   \<and> qs_parse (attrsToQuery [(''scoped'', AttrTrue)] None False)
       \<noteq> attrsObject (withoutReserved [(''scoped'', AttrTrue)])
   \<and> attrsToQuery [(''scoped'', AttrTrue)] None False
       = attrsToQuery [(''scoped'', AttrString ''true'')] None False
   \<and> qs_parse (attrsToQuery [(''lang'', AttrString ''ts'')] None False) ''lang.ts''
       = Some (JsString [])
   \<and> attrsObject (withoutReserved [(''lang'', AttrString ''ts'')]) ''lang.ts'' = None
   \<and> qs_parse (attrsToQuery [(''lang'', AttrString ''ts'')] None False)
       \<noteq> attrsObject (withoutReserved [(''lang'', AttrString ''ts'')])"
proof -
  have a: "qs_parse (attrsToQuery [(''scoped'', AttrTrue)] None False) ''scoped''
             = Some (JsString ''true'')"
    by (simp add: qs_parse_def qs_pairs_def addKeyValue_def parsePair_def encoder_defs)
  have b: "attrsObject (withoutReserved [(''scoped'', AttrTrue)]) ''scoped'' = Some JsTrue"
    by (simp add: attrsObject_def withoutReserved_def ignoreList_def)
  have c: "qs_parse (attrsToQuery [(''scoped'', AttrTrue)] None False)
             \<noteq> attrsObject (withoutReserved [(''scoped'', AttrTrue)])"
  proof
    assume "qs_parse (attrsToQuery [(''scoped'', AttrTrue)] None False)
              = attrsObject (withoutReserved [(''scoped'', AttrTrue)])"
    then have "qs_parse (attrsToQuery [(''scoped'', AttrTrue)] None False) ''scoped''
                 = attrsObject (withoutReserved [(''scoped'', AttrTrue)]) ''scoped''"
      by (rule arg_cong [where f = "\<lambda>f. f ''scoped''"])
    then show False unfolding a b by simp
  qed
  have d: "attrsToQuery [(''scoped'', AttrTrue)] None False
             = attrsToQuery [(''scoped'', AttrString ''true'')] None False"
    by (simp add: encoder_defs)
  have e: "qs_parse (attrsToQuery [(''lang'', AttrString ''ts'')] None False) ''lang.ts''
             = Some (JsString [])"
    by (simp add: qs_parse_def qs_pairs_def addKeyValue_def parsePair_def encoder_defs)
  have f: "attrsObject (withoutReserved [(''lang'', AttrString ''ts'')]) ''lang.ts'' = None"
    by (simp add: attrsObject_def withoutReserved_def ignoreList_def)
  have g: "qs_parse (attrsToQuery [(''lang'', AttrString ''ts'')] None False)
             \<noteq> attrsObject (withoutReserved [(''lang'', AttrString ''ts'')])"
  proof
    assume "qs_parse (attrsToQuery [(''lang'', AttrString ''ts'')] None False)
              = attrsObject (withoutReserved [(''lang'', AttrString ''ts'')])"
    then have "qs_parse (attrsToQuery [(''lang'', AttrString ''ts'')] None False) ''lang.ts''
                 = attrsObject (withoutReserved [(''lang'', AttrString ''ts'')]) ''lang.ts''"
      by (rule arg_cong [where f = "\<lambda>f. f ''lang.ts''"])
    then show False unfolding e f by simp
  qed
  show ?thesis
    by (intro conjI) (rule a b c d e f g)+
qed

subsection \<open>The id parameter\<close>

lemma queryParams_path:
  assumes "CHR ''?'' \<notin> set p"
  shows "queryParams (p @ CHR ''?'' # q) = split_on (CHR ''&'') q"
proof -
  have "dropWhile (\<lambda>c. c \<noteq> CHR ''?'') (p @ CHR ''?'' # q)
          = dropWhile (\<lambda>c. c \<noteq> CHR ''?'') (CHR ''?'' # q)"
    using assms by (intro dropWhile_append2) auto
  then show ?thesis by (simp add: queryParams_def)
qed

lemma split_on_append_subset:
  assumes "b = [] \<or> hd b = c"
  shows "set (split_on c (a @ b)) \<subseteq> set (split_on c a) \<union> set (split_on c b)"
proof (cases b)
  case Nil
  then show ?thesis by auto
next
  case (Cons x b')
  with assms have "b = c # b'" by simp
  then show ?thesis using split_on_append [of c a b'] by auto
qed

lemma string_of_nat_digits: "set (string_of_nat n) \<subseteq> set ''0123456789''"
proof (induction n rule: string_of_nat.induct)
  case (1 n)
  have d: "digit_char k \<in> set ''0123456789''" if "k < 10" for k
  proof -
    from that have "k \<in> set [0..<10]" by simp
    moreover have "\<forall>k \<in> set [0..<10]. digit_char k \<in> set ''0123456789''"
      by code_simp
    ultimately show ?thesis by blast
  qed
  show ?case
  proof (cases "n < 10")
    case True
    then show ?thesis using d [of n] by (subst string_of_nat.simps) simp
  next
    case False
    have "n mod 10 < 10" by simp
    with False "1.IH" d [of "n mod 10"] show ?thesis
      by (subst string_of_nat.simps) auto
  qed
qed

lemma string_of_nat_no_amp [simp]: "CHR ''&'' \<notin> set (string_of_nat n)"
  using string_of_nat_digits [of n] by auto

lemma attr_piece_not_id:
  assumes "k \<noteq> ''id''"
  shows "tl (attrParam (k, v)) \<noteq> ''id='' @ token"
proof
  assume "tl (attrParam (k, v)) = ''id='' @ token"
  then have "fst (parsePair (tl (attrParam (k, v)))) = fst (parsePair (''id='' @ token))"
    by simp
  then have "k = ''id''"
    unfolding parsePair_attrParam by (simp add: parsePair_def)
  with assms show False by simp
qed

lemma attrsToQuery_no_id:
  assumes "CHR ''&'' \<notin> set (langChoice m fb force)"
  shows "''id='' @ token \<notin> set (split_on (CHR ''&'') (attrsToQuery m fb force))"
proof -
  have "\<forall>a \<in> set (withoutReserved m). tl (attrParam a) \<noteq> ''id='' @ token"
  proof
    fix a assume a: "a \<in> set (withoutReserved m)"
    obtain k v where kv: "a = (k, v)" by (cases a)
    with a have "k \<notin> set ignoreList" by (simp add: withoutReserved_def)
    then have "k \<noteq> ''id''" by (auto simp add: ignoreList_def)
    with kv show "tl (attrParam a) \<noteq> ''id='' @ token"
      using attr_piece_not_id by blast
  qed
  then have "''id='' @ token \<notin> set (map (\<lambda>a. tl (attrParam a)) (withoutReserved m))"
    by auto
  then show ?thesis
    unfolding split_on_attrsToQuery [OF assms] by simp
qed

lemma no_id_in_address:
  assumes "CHR ''?'' \<notin> set p"
    and "''id='' @ token \<notin> set (split_on (CHR ''&'') fixed)"
    and "CHR ''&'' \<notin> set (langChoice m fb force)"
  shows "\<not> carriesId (p @ CHR ''?'' # fixed @ attrsToQuery m fb force) token"
proof -
  have "set (split_on (CHR ''&'') (fixed @ attrsToQuery m fb force))
          \<subseteq> set (split_on (CHR ''&'') fixed)
            \<union> set (split_on (CHR ''&'') (attrsToQuery m fb force))"
    by (rule split_on_append_subset) (rule attrsToQuery_starts)
  with assms(2) attrsToQuery_no_id [OF assms(3)]
  have "''id='' @ token \<notin> set (split_on (CHR ''&'') (fixed @ attrsToQuery m fb force))"
    by blast
  then show ?thesis
    unfolding carriesId_def queryParams_path [OF assms(1)] .
qed

lemma scriptAddress_no_id:
  assumes "CHR ''?'' \<notin> set (or_else (src s) resourcePath)"
    and "CHR ''&'' \<notin> set (langChoice (attrs s) (Some ''js'') False)"
  shows "\<not> carriesId (scriptAddress s resourcePath) token"
proof -
  let ?fixed = "''vue&type=script'' @ (if truthy_string_opt (src s) then ''&src'' else [])"
  have f: "''id='' @ token \<notin> set (split_on (CHR ''&'') ?fixed)"
    by simp
  have "scriptAddress s resourcePath
          = or_else (src s) resourcePath @ CHR ''?'' # ?fixed
              @ attrsToQuery (attrs s) (Some ''js'') False"
    by (simp add: scriptAddress_def Let_def)
  then show ?thesis
    using no_id_in_address [OF assms(1) f assms(2)] by simp
qed

lemma customBlockAddress_no_id:
  assumes "CHR ''?'' \<notin> set (or_else (src b) resourcePath)"
    and "CHR ''&'' \<notin> set (block_type b)"
    and "CHR ''&'' \<notin> set (langChoice (attrs b) (Some (block_type b)) False)"
  shows "\<not> carriesId (customBlockAddress b n resourcePath) token"
proof -
  let ?src = "if truthy_string_opt (src b) then ''&src'' else []"
  let ?fixed = "''vue&type='' @ block_type b @ ''&index='' @ string_of_nat n @ ?src"
  have t: "split_on (CHR ''&'') (''type='' @ block_type b) = [''type='' @ block_type b]"
    using assms(2) by (intro split_on_no_sep) simp
  have i: "split_on (CHR ''&'') (''index='' @ string_of_nat n) = [''index='' @ string_of_nat n]"
    by (intro split_on_no_sep) simp
  have s0: "split_on (CHR ''&'') (''vue&'' @ (''type='' @ block_type b) @ CHR ''&'' # ''index='' @ string_of_nat n)
          = [''vue'', ''type='' @ block_type b, ''index='' @ string_of_nat n]"
    using split_on_append [of "CHR ''&''" "''vue''" "(''type='' @ block_type b) @ CHR ''&'' # ''index='' @ string_of_nat n"]
      split_on_append [of "CHR ''&''" "''type='' @ block_type b" "''index='' @ string_of_nat n"]
      t i
    by (simp add: split_on_no_sep)
  have f: "''id='' @ token \<notin> set (split_on (CHR ''&'') ?fixed)"
  proof (cases "truthy_string_opt (src b)")
    case False
    with s0 show ?thesis by simp
  next
    case True
    have "split_on (CHR ''&'') ((''vue&'' @ (''type='' @ block_type b) @ CHR ''&'' # ''index='' @ string_of_nat n) @ CHR ''&'' # ''src'')
            = [''vue'', ''type='' @ block_type b, ''index='' @ string_of_nat n] @ [''src'']"
      unfolding split_on_append s0 by simp
    with True show ?thesis by simp
  qed
  have "customBlockAddress b n resourcePath
          = or_else (src b) resourcePath @ CHR ''?'' # ?fixed
              @ attrsToQuery (attrs b) (Some (block_type b)) False"
    by (simp add: customBlockAddress_def Let_def)
  then show ?thesis
    using no_id_in_address [OF assms(1) f assms(3)] by simp
qed

text \<open>
  C6, as the code has it. The template address, the address of every style section and
  its \<open>.js\<close> export-map variant carry the parameter \<open>id=<scope token>\<close> (the token,
  a hash, contains no \<open>&\<close>); so does the side-effect address of a CSS module section
  when the replacement removes exactly the module parameter. The script address and the
  custom block addresses carry no \<open>id\<close> parameter at all, whatever the token, when the
  path has no \<open>?\<close> and the block type and the chosen language have no \<open>&\<close>: they
  are built from the path, the type, the index, the \<open>src\<close> flag and the encoded
  attributes, and an attribute named \<open>id\<close> is not encoded.
\<close>

theorem id_parameter_on_template_and_styles:
  assumes "CHR ''&'' \<notin> set ident"
  shows "carriesId (templateAddress t resourcePath ident) ident
       \<and> carriesId (styleRequest style i resourcePath ident preprocess) ident
       \<and> carriesId (styleRequest style i resourcePath ident preprocess @ ''.js'') ident
       \<and> (attrs style = A @ [(''module'', v)] @ B
            \<and> (\<forall>a \<in> set A. \<not> prefix ''module'' (fst a))
            \<and> (\<forall>s. v = AttrString s \<longrightarrow> s = ''true'' \<or> \<not> prefix ''true'' s)
            \<longrightarrow> carriesId (styleRequestWithoutModule style i resourcePath ident preprocess)
                  ident)
       \<and> (CHR ''?'' \<notin> set (or_else (src s) resourcePath)
            \<and> CHR ''&'' \<notin> set (langChoice (attrs s) (Some ''js'') False)
            \<longrightarrow> \<not> carriesId (scriptAddress s resourcePath) token)
       \<and> (CHR ''?'' \<notin> set (or_else (src b) resourcePath)
            \<and> CHR ''&'' \<notin> set (block_type b)
            \<and> CHR ''&'' \<notin> set (langChoice (attrs b) (Some (block_type b)) False)
            \<longrightarrow> \<not> carriesId (customBlockAddress b n resourcePath) token)"
proof (intro conjI impI)
  show "carriesId (templateAddress t resourcePath ident) ident"
    by (rule carriesId_templateAddress [OF assms])
  show "carriesId (styleRequest style i resourcePath ident preprocess) ident"
    using carriesId_styleRequest [OF assms, of style i resourcePath preprocess "[]"] by simp
  show "carriesId (styleRequest style i resourcePath ident preprocess @ ''.js'') ident"
    by (rule carriesId_styleRequest [OF assms])
next
  assume "CHR ''?'' \<notin> set (or_else (src s) resourcePath)
            \<and> CHR ''&'' \<notin> set (langChoice (attrs s) (Some ''js'') False)"
  then show "\<not> carriesId (scriptAddress s resourcePath) token"
    using scriptAddress_no_id by blast
next
  assume "CHR ''?'' \<notin> set (or_else (src b) resourcePath)
            \<and> CHR ''&'' \<notin> set (block_type b)
            \<and> CHR ''&'' \<notin> set (langChoice (attrs b) (Some (block_type b)) False)"
  then show "\<not> carriesId (customBlockAddress b n resourcePath) token"
    using customBlockAddress_no_id by blast
next
  assume h: "attrs style = A @ [(''module'', v)] @ B
            \<and> (\<forall>a \<in> set A. \<not> prefix ''module'' (fst a))
            \<and> (\<forall>s. v = AttrString s \<longrightarrow> s = ''true'' \<or> \<not> prefix ''true'' s)"
  then have "styleRequestWithoutModule style i resourcePath ident preprocess
              = styleRequest (style\<lparr>attrs := A @ B\<rparr>) i resourcePath ident preprocess"
    using styleRequestWithoutModule_eq by blast
  then show "carriesId (styleRequestWithoutModule style i resourcePath ident preprocess) ident"
    using carriesId_styleRequest [OF assms, of "style\<lparr>attrs := A @ B\<rparr>" i resourcePath
        preprocess "[]"] by simp
qed

theorem id_parameter_on_template_and_styles_witness:
  "CHR ''&'' \<notin> set ''7ba5bd90''
   \<and> templateAddress \<lparr>block_type = ''template'', content = ''<div/>'', src = None, attrs = []\<rparr>
         ''/proj/src/App.vue'' ''7ba5bd90''
       = ''/proj/src/App.vue?vue&type=template&id=7ba5bd90&lang.js''
   \<and> carriesId
         (templateAddress \<lparr>block_type = ''template'', content = ''<div/>'', src = None, attrs = []\<rparr>
            ''/proj/src/App.vue'' ''7ba5bd90'') ''7ba5bd90''
   \<and> carriesId (styleRequest (styles exampleDescriptor ! 1) 1 ''/proj/src/App.vue''
                   ''7ba5bd90'' False) ''7ba5bd90''
   \<and> carriesId (styleRequest (styles exampleDescriptor ! 1) 1 ''/proj/src/App.vue''
                   ''7ba5bd90'' False @ ''.js'') ''7ba5bd90''
   \<and> carriesId (styleRequestWithoutModule (styles exampleDescriptor ! 1) 1
                   ''/proj/src/App.vue'' ''7ba5bd90'' False) ''7ba5bd90''
   \<and> \<not> carriesId
         (scriptAddress \<lparr>block_type = ''script'', content = ''export default {}'', src = None,
                          attrs = []\<rparr> ''/proj/src/App.vue'') ''7ba5bd90''
   \<and> \<not> carriesId (customBlockAddress (customBlocks exampleDescriptor ! 1) 1
                     ''/proj/src/App.vue'') ''7ba5bd90''"
proof -
  have a: "CHR ''&'' \<notin> set ''7ba5bd90''" by simp
  have h: "attrs (styles exampleDescriptor ! 1) = [] @ [(''module'', AttrString ''classes'')] @ []
           \<and> (\<forall>a \<in> set []. \<not> prefix ''module'' (fst (a :: string \<times> attr_value)))
           \<and> (\<forall>s. AttrString ''classes'' = AttrString s \<longrightarrow> s = ''true'' \<or> \<not> prefix ''true'' s)"
    by (simp add: exampleDescriptor_def)
  have t: "templateAddress \<lparr>block_type = ''template'', content = ''<div/>'', src = None, attrs = []\<rparr>
         ''/proj/src/App.vue'' ''7ba5bd90''
       = ''/proj/src/App.vue?vue&type=template&id=7ba5bd90&lang.js''"
    by (simp add: templateAddress_def encoder_defs)
  have hs: "CHR ''?'' \<notin> set (or_else (src \<lparr>block_type = ''script'',
                 content = ''export default {}'', src = None, attrs = []\<rparr>) ''/proj/src/App.vue'')
            \<and> CHR ''&'' \<notin> set (langChoice (attrs \<lparr>block_type = ''script'',
                 content = ''export default {}'', src = None, attrs = []\<rparr>) (Some ''js'') False)"
    by (simp add: or_else_def langChoice_def interpolate_string_opt_def)
  have hb: "CHR ''?'' \<notin> set (or_else (src (customBlocks exampleDescriptor ! 1)) ''/proj/src/App.vue'')
            \<and> CHR ''&'' \<notin> set (block_type (customBlocks exampleDescriptor ! 1))
            \<and> CHR ''&'' \<notin> set (langChoice (attrs (customBlocks exampleDescriptor ! 1))
                                 (Some (block_type (customBlocks exampleDescriptor ! 1))) False)"
    by (simp add: exampleDescriptor_def or_else_def langChoice_def interpolate_string_opt_def)
  note r = id_parameter_on_template_and_styles [OF a,
        of "\<lparr>block_type = ''template'', content = ''<div/>'', src = None, attrs = []\<rparr>"
        "''/proj/src/App.vue''" "styles exampleDescriptor ! 1" 1 False "[]"
        "AttrString ''classes''" "[]"
        "\<lparr>block_type = ''script'', content = ''export default {}'', src = None, attrs = []\<rparr>"
        "''7ba5bd90''" "customBlocks exampleDescriptor ! 1" 1]
  note r1 = r [THEN conjunct1]
  note r2 = r [THEN conjunct2, THEN conjunct1]
  note r3 = r [THEN conjunct2, THEN conjunct2, THEN conjunct1]
  note r4 = r [THEN conjunct2, THEN conjunct2, THEN conjunct2, THEN conjunct1, THEN mp, OF h]
  note r5 = r [THEN conjunct2, THEN conjunct2, THEN conjunct2, THEN conjunct2,
      THEN conjunct1, THEN mp, OF hs]
  note r6 = r [THEN conjunct2, THEN conjunct2, THEN conjunct2, THEN conjunct2,
      THEN conjunct2, THEN mp, OF hb]
  show ?thesis
    by (intro conjI) (rule a t r1 r2 r3 r4 r5 r6)+
qed


text \<open>
  C6 as the spec words it fails for the script and for custom blocks: in the document of
  section 8 their addresses have no \<open>id\<close> parameter.
\<close>

theorem id_parameter_counterexample:
  "fst (genScriptCode (exampleExternals exampleDescriptor []) exampleDescriptor
          ''/proj/src/App.vue'' ''7ba5bd90'' False False ())
     = ''import script from '' @ [CHR 0x22] @ ''/proj/src/App.vue?vue&type=script&lang.js''
         @ [CHR 0x22, CHR 0x0A] @ ''export * from '' @ [CHR 0x22]
         @ ''/proj/src/App.vue?vue&type=script&lang.js'' @ [CHR 0x22]
   \<and> \<not> carriesId ''/proj/src/App.vue?vue&type=script&lang.js'' ''7ba5bd90''
   \<and> customBlockAddress (customBlocks exampleDescriptor ! 1) 1 ''/proj/src/App.vue''
       = ''/proj/src/App.vue?vue&type=i18n&index=1&locale=en&lang.i18n''
   \<and> \<not> carriesId ''/proj/src/App.vue?vue&type=i18n&index=1&locale=en&lang.i18n'' ''7ba5bd90''"
  by (simp add: genScriptCode_def compiledDescriptor_def chosenScript_def scriptAddress_def
      customBlockAddress_def carriesId_def queryParams_def example_defs encoder_defs)

end
